theory Spec2Isabelle
  imports Complex_Main
begin

section \<open>Tabular dynamic programming over grid MDPs\<close>

text \<open>
  The development embeds the environment classes \<open>Environment\<close>, \<open>FrozenLake\<close> and
  \<open>GridWorld\<close> and the solvers of \<open>model_based_tabular_algorithms.py\<close>.
  Python integers are \<open>int\<close>. Python floats are idealised as \<open>real\<close>, with exact
  arithmetic, wherever a property does not depend on rounding; the sum of a row of the
  probability tensor does, and for it the construction of the tensor is embedded a second
  time with every operation rounded to binary64.
  A numpy array indexed by integers is a function on its index space together with the
  shape that numpy checks an index against.
\<close>

subsection \<open>Errors and Python indexing\<close>

datatype error = InvalidAction | IndexError

text \<open>
  Indexing a Python tuple or one axis of a numpy array of extent \<open>n\<close>: an index in
  \<open>[-n, n)\<close> is accepted, a negative one counting from the end; any other raises
  IndexError.
\<close>

definition np_index :: "int \<Rightarrow> int \<Rightarrow> int option" where
  "np_index n i = (if - n \<le> i \<and> i < n then Some (if i < 0 then i + n else i) else None)"

subsection \<open>Grids and the index mapping\<close>

type_synonym grid = "string list list"

text \<open>The shape numpy gives a rectangular list of rows.\<close>

definition shape_rows :: "grid \<Rightarrow> int" where
  "shape_rows g = int (length g)"

definition shape_columns :: "grid \<Rightarrow> int" where
  "shape_columns g = (case g of [] \<Rightarrow> 0 | r # _ \<Rightarrow> int (length r))"

definition grid_size :: "grid \<Rightarrow> int" where
  "grid_size g = shape_rows g * shape_columns g"

text \<open>
  A grid the constructors accept: at least one row, at least one column, all rows of the
  same length. (On a ragged or empty grid \<open>np.array(grid).shape\<close> does not unpack into
  two extents.)
\<close>

definition wf_grid :: "grid \<Rightarrow> bool" where
  "wf_grid g \<longleftrightarrow> g \<noteq> [] \<and> hd g \<noteq> [] \<and> list_all (\<lambda>r. length r = length (hd g)) g"

text \<open>\<open>grid[x, y]\<close> on the numpy array of the grid.\<close>

definition grid_at :: "grid \<Rightarrow> int \<Rightarrow> int \<Rightarrow> error + string" where
  "grid_at g x y =
     (case np_index (shape_rows g) x of
        None \<Rightarrow> Inl IndexError
      | Some i \<Rightarrow>
         (case np_index (shape_columns g) y of
            None \<Rightarrow> Inl IndexError
          | Some j \<Rightarrow> Inr (g ! nat i ! nat j)))"

text \<open>
  Modelled from the spec: the module \<open>env_helper\<close> (\<open>index_to_position\<close>,
  \<open>position_to_index\<close>) is not among the sources. The spec describes them as the pure
  conversion between a flat state index and a (row, column) coordinate by row-major
  flattening. Python's \<open>//\<close> and \<open>%\<close> round towards minus infinity, as \<open>div\<close> and
  \<open>mod\<close> on \<open>int\<close> do.
\<close>

definition index_to_position :: "int \<Rightarrow> int \<Rightarrow> int \<times> int" where
  "index_to_position i cols = (i div cols, i mod cols)"

definition position_to_index :: "int \<Rightarrow> int \<Rightarrow> int \<Rightarrow> int" where
  "position_to_index x y cols = x * cols + y"

text \<open>The movement deltas \<open>self.actions\<close>, shared by both environments.\<close>

definition actions :: "(int \<times> int) list" where
  "actions = [(- 1, 0), (1, 0), (0, - 1), (0, 1)]"

text \<open>\<open>self.actions[a]\<close> for an arbitrary integer \<open>a\<close>.\<close>

definition actions_at :: "int \<Rightarrow> error + (int \<times> int)" where
  "actions_at a =
     (case np_index (int (length actions)) a of
        None \<Rightarrow> Inl IndexError
      | Some i \<Rightarrow> Inr (actions ! nat i))"

text \<open>The symbols of the grids. The pound sign is written as its UTF-8 bytes.\<close>

definition pound :: string where
  "pound = [CHR 0xC2, CHR 0xA3]"

subsection \<open>The base environment\<close>

text \<open>
  The object state of \<open>Environment\<close>. The fields \<open>n_steps\<close>, \<open>state\<close> and
  \<open>random_state\<close> are the mutable ones.
\<close>

record 'r Environment =
  n_states :: int
  n_actions :: int
  max_steps :: int
  n_steps :: int
  state :: int
  random_state :: 'r

text \<open>
  Modelled from the spec: \<open>EnvironmentModel.draw\<close> is not among the sources. The spec
  says that \<open>step\<close> advances the current state to the next state sampled from
  \<open>transitionProbability(., current_state, action)\<close> with the seeded random source and
  returns the reward of that transition. It is taken as a parameter: a function of the
  random source, the state and the action that returns the sampled next state, the reward
  and the advanced random source.
\<close>

type_synonym ('r, 'w) draw = "'r \<Rightarrow> int \<Rightarrow> int \<Rightarrow> (int \<times> 'w) \<times> 'r"

text \<open>
  \<open>Environment.step\<close>. The result pairs what the call returns or raises with the object
  after the call.
\<close>

definition step ::
  "('r, 'w) draw \<Rightarrow> ('r, 'm) Environment_scheme \<Rightarrow> int \<Rightarrow>
     (error + (int \<times> 'w \<times> bool)) \<times> ('r, 'm) Environment_scheme" where
  "step draw self action =
     (if action < 0 \<or> action \<ge> n_actions self then (Inl InvalidAction, self)
      else
        let self1 = self\<lparr>n_steps := n_steps self + 1\<rparr>;
            done = (n_steps self1 \<ge> max_steps self1);
            ((next_state, reward), rs) = draw (random_state self1) (state self1) action;
            self2 = self1\<lparr>state := next_state, random_state := rs\<rparr>
        in (Inr (state self2, reward, done), self2))"

subsection \<open>The slippery grid\<close>

type_synonym tensor = "int \<Rightarrow> int \<Rightarrow> int \<Rightarrow> real"

record 'r FrozenLake = "'r Environment" +
  lake :: grid
  rows :: int
  columns :: int
  slip :: real
  absorbing_state :: int
  p_tensor :: tensor

text \<open>\<open>self._p[s, :, ns] = v\<close>: every action of the second axis.\<close>

definition assign_all_actions :: "tensor \<Rightarrow> int \<Rightarrow> int \<Rightarrow> int \<Rightarrow> real \<Rightarrow> tensor" where
  "assign_all_actions t n_act s ns v =
     (\<lambda>s0 a0 ns0. if s0 = s \<and> 0 \<le> a0 \<and> a0 < n_act \<and> ns0 = ns then v else t s0 a0 ns0)"

text \<open>\<open>self._p[s, a, ns] += v\<close>.\<close>

definition add_at :: "tensor \<Rightarrow> int \<Rightarrow> int \<Rightarrow> int \<Rightarrow> real \<Rightarrow> tensor" where
  "add_at t s a ns v =
     (\<lambda>s0 a0 ns0. if s0 = s \<and> a0 = a \<and> ns0 = ns then t s a ns + v else t s0 a0 ns0)"

text \<open>
  The cell a movement delta leads to from \<open>(x, y)\<close>: the neighbour when it is on the
  grid, otherwise the state itself.
\<close>

definition move_target :: "int \<Rightarrow> int \<Rightarrow> int \<Rightarrow> int \<times> int \<Rightarrow> int \<Rightarrow> int" where
  "move_target n_rows n_cols st pos a =
     (let next_x = fst pos + fst (actions ! nat a);
          next_y = snd pos + snd (actions ! nat a)
      in if 0 \<le> next_x \<and> next_x < n_rows \<and> 0 \<le> next_y \<and> next_y < n_cols
         then position_to_index next_x next_y n_cols
         else st)"

text \<open>The body of the innermost loop of \<open>_populate_probabilities\<close>.\<close>

definition slip_update ::
  "('r, 'm) FrozenLake_scheme \<Rightarrow> int \<Rightarrow> int \<times> int \<Rightarrow> int \<Rightarrow> tensor \<Rightarrow> int \<Rightarrow> tensor" where
  "slip_update self st pos action t slip_action =
     (let next_state =
            move_target (FrozenLake.rows self) (FrozenLake.columns self) st pos slip_action;
          t1 = add_at t st action next_state (slip self / real_of_int (n_actions self))
      in if action = slip_action then add_at t1 st action next_state (1 - slip self)
         else t1)"

definition populate_action ::
  "('r, 'm) FrozenLake_scheme \<Rightarrow> int \<Rightarrow> int \<times> int \<Rightarrow> tensor \<Rightarrow> int \<Rightarrow> tensor" where
  "populate_action self st pos t action =
     foldl (slip_update self st pos action) t [0 .. n_actions self - 1]"

text \<open>
  One round of the loop over the states. The cell is read only when the state is not the
  absorbing one, as the source's \<open>or\<close> does; the index is then on the grid.
\<close>

definition terminal_cell :: "('r, 'm) FrozenLake_scheme \<Rightarrow> int \<Rightarrow> bool" where
  "terminal_cell self st =
     (st = FrozenLake.absorbing_state self \<or>
      (let (x, y) = index_to_position st (FrozenLake.columns self)
       in FrozenLake.lake self ! nat x ! nat y \<in> {''#'', ''$''}))"

definition populate_state :: "('r, 'm) FrozenLake_scheme \<Rightarrow> tensor \<Rightarrow> int \<Rightarrow> tensor" where
  "populate_state self t st =
     (if terminal_cell self st
      then assign_all_actions t (n_actions self) st (FrozenLake.absorbing_state self) 1
      else foldl (populate_action self st (index_to_position st (FrozenLake.columns self))) t
             [0 .. n_actions self - 1])"

definition populate_probabilities ::
  "('r, 'm) FrozenLake_scheme \<Rightarrow> ('r, 'm) FrozenLake_scheme" where
  "populate_probabilities self =
     self\<lparr>p_tensor := foldl (populate_state self) (p_tensor self) [0 .. n_states self - 1]\<rparr>"

text \<open>
  The constructor. The initial-state distribution plays no part below; the initial
  state drawn from it and the random source are parameters.
\<close>

definition FrozenLake_init :: "grid \<Rightarrow> real \<Rightarrow> int \<Rightarrow> int \<Rightarrow> 'r \<Rightarrow> 'r FrozenLake" where
  "FrozenLake_init lk sl ms s0 rs =
     populate_probabilities
       \<lparr>n_states = grid_size lk + 1, n_actions = int (length actions), max_steps = ms,
        n_steps = 0, state = s0, random_state = rs,
        lake = lk, FrozenLake.rows = shape_rows lk, FrozenLake.columns = shape_columns lk,
        slip = sl, FrozenLake.absorbing_state = grid_size lk + 1 - 1,
        p_tensor = (\<lambda>s a ns. 0)\<rparr>"

text \<open>\<open>self._p[state, action, next_state]\<close> with numpy's bounds check on each axis.\<close>

definition p_tensor_at ::
  "('r, 'm) FrozenLake_scheme \<Rightarrow> int \<Rightarrow> int \<Rightarrow> int \<Rightarrow> error + real" where
  "p_tensor_at self st action next_state =
     (case (np_index (n_states self) st, np_index (n_actions self) action,
            np_index (n_states self) next_state) of
        (Some i, Some j, Some k) \<Rightarrow> Inr (p_tensor self i j k)
      | _ \<Rightarrow> Inl IndexError)"

definition FrozenLake_p ::
  "('r, 'm) FrozenLake_scheme \<Rightarrow> int \<Rightarrow> int \<Rightarrow> int \<Rightarrow> error + real" where
  "FrozenLake_p self next_state st action = p_tensor_at self st action next_state"

definition FrozenLake_r ::
  "('r, 'm) FrozenLake_scheme \<Rightarrow> int \<Rightarrow> int \<Rightarrow> int \<Rightarrow> error + int" where
  "FrozenLake_r self next_state st action =
     (case p_tensor_at self st action next_state of
        Inl e \<Rightarrow> Inl e
      | Inr pr \<Rightarrow>
         if pr = 0 \<or> FrozenLake.absorbing_state self = st then Inr 0
         else
           (let (x, y) = index_to_position st (FrozenLake.columns self)
            in case grid_at (lake self) x y of
                 Inl e \<Rightarrow> Inl e
               | Inr c \<Rightarrow> if c = ''$'' then Inr 1 else Inr 0))"

definition FrozenLake_step ::
  "('r, 'w) draw \<Rightarrow> ('r, 'm) FrozenLake_scheme \<Rightarrow> int \<Rightarrow>
     (error + (int \<times> 'w \<times> bool)) \<times> ('r, 'm) FrozenLake_scheme" where
  "FrozenLake_step draw self action =
     (case step draw self action of
        (Inl e, self') \<Rightarrow> (Inl e, self')
      | (Inr (st, reward, done), self') \<Rightarrow>
          (Inr (st, reward, (st = FrozenLake.absorbing_state self') \<or> done), self'))"

subsection \<open>The reward grid\<close>

record 'r GridWorld = "'r Environment" +
  world :: grid
  rows :: int
  columns :: int
  absorbing_state :: int

definition GridWorld_init :: "grid \<Rightarrow> int \<Rightarrow> int \<Rightarrow> 'r \<Rightarrow> 'r GridWorld" where
  "GridWorld_init gr ms s0 rs =
     \<lparr>n_states = grid_size gr + 1, n_actions = 4, max_steps = ms,
      n_steps = 0, state = s0, random_state = rs,
      world = gr, GridWorld.rows = shape_rows gr, GridWorld.columns = shape_columns gr,
      GridWorld.absorbing_state = grid_size gr + 1 - 1\<rparr>"

text \<open>
  \<open>GridWorld.p\<close>. The tuple \<open>self.actions\<close> is indexed before any branch is taken. The
  result is Python's \<open>int(...)\<close> of a comparison.
\<close>

definition GridWorld_p ::
  "('r, 'm) GridWorld_scheme \<Rightarrow> int \<Rightarrow> int \<Rightarrow> int \<Rightarrow> error + int" where
  "GridWorld_p self next_state st action =
     (let (x, y) = index_to_position st (GridWorld.columns self)
      in case actions_at action of
           Inl e \<Rightarrow> Inl e
         | Inr d \<Rightarrow>
            (let next_x = x + fst d; next_y = y + snd d
             in if st = GridWorld.absorbing_state self then Inr (of_bool (st = next_state))
                else
                  (case grid_at (world self) x y of
                     Inl e \<Rightarrow> Inl e
                   | Inr c \<Rightarrow>
                      if c = ''#'' then Inr (of_bool (st = next_state))
                      else if c \<in> {pound, ''$''}
                      then Inr (of_bool (next_state = GridWorld.absorbing_state self))
                      else if 0 \<le> next_x \<and> next_x < GridWorld.rows self \<and>
                              0 \<le> next_y \<and> next_y < GridWorld.columns self
                      then
                        (case grid_at (world self) next_x next_y of
                           Inl e \<Rightarrow> Inl e
                         | Inr c' \<Rightarrow>
                            if c' \<noteq> ''#''
                            then Inr (of_bool (next_state =
                                   position_to_index next_x next_y (GridWorld.columns self)))
                            else Inr (of_bool (st = next_state)))
                      else Inr (of_bool (st = next_state)))))"

definition GridWorld_r ::
  "('r, 'm) GridWorld_scheme \<Rightarrow> int \<Rightarrow> int \<Rightarrow> int \<Rightarrow> error + int" where
  "GridWorld_r self next_state st action =
     (case GridWorld_p self next_state st action of
        Inl e \<Rightarrow> Inl e
      | Inr pr \<Rightarrow>
         if pr = 0 \<or> GridWorld.absorbing_state self \<in> {st, next_state} then Inr 0
         else
           (let (x, y) = index_to_position next_state (GridWorld.columns self)
            in case grid_at (world self) x y of
                 Inl e \<Rightarrow> Inl e
               | Inr token \<Rightarrow>
                  if token = ''$'' then Inr 1
                  else if token = pound then Inr (- 1)
                  else Inr 0))"

definition GridWorld_step ::
  "('r, 'w) draw \<Rightarrow> ('r, 'm) GridWorld_scheme \<Rightarrow> int \<Rightarrow>
     (error + (int \<times> 'w \<times> bool)) \<times> ('r, 'm) GridWorld_scheme" where
  "GridWorld_step draw self action =
     (case step draw self action of
        (Inl e, self') \<Rightarrow> (Inl e, self')
      | (Inr (st, reward, done), self') \<Rightarrow>
          (Inr (st, reward, (st = GridWorld.absorbing_state self') \<or> done), self'))"

text \<open>The transition rows the sum-to-one property speaks about.\<close>

definition FrozenLake_row ::
  "('r, 'm) FrozenLake_scheme \<Rightarrow> int \<Rightarrow> int \<Rightarrow> (error + real) list" where
  "FrozenLake_row self st action =
     map (\<lambda>next_state. FrozenLake_p self next_state st action) [0 .. n_states self - 1]"

definition GridWorld_row ::
  "('r, 'm) GridWorld_scheme \<Rightarrow> int \<Rightarrow> int \<Rightarrow> (error + int) list" where
  "GridWorld_row self st action =
     map (\<lambda>next_state. GridWorld_p self next_state st action) [0 .. n_states self - 1]"

text \<open>
  The cell a move leads to from a state of the slippery grid, and the probability mass
  one slip action adds for an intended action.
\<close>

definition cell_target :: "('r, 'm) FrozenLake_scheme \<Rightarrow> int \<Rightarrow> int \<Rightarrow> int" where
  "cell_target self st a =
     move_target (FrozenLake.rows self) (FrozenLake.columns self) st
       (index_to_position st (FrozenLake.columns self)) a"

definition slip_mass ::
  "('r, 'm) FrozenLake_scheme \<Rightarrow> int \<Rightarrow> int \<Rightarrow> int \<Rightarrow> int \<Rightarrow> real" where
  "slip_mass self st action slip_action ns =
     (if cell_target self st slip_action = ns
      then slip self / real_of_int (n_actions self) +
           (if action = slip_action then 1 - slip self else 0)
      else 0)"

subsection \<open>The slippery grid in binary64 arithmetic\<close>

text \<open>Rounding a real to the nearest integer, a tie going to the even one.\<close>

definition round_even :: "real \<Rightarrow> int" where
  "round_even y =
     (let f = \<lfloor>y\<rfloor>; d = y - of_int f
      in if d < 1 / 2 then f else if 1 / 2 < d then f + 1 else if even f then f else f + 1)"

text \<open>
  The binade of a positive real \<open>x\<close>: the exponent \<open>e\<close> with \<open>2^e \<le> x < 2^(e+1)\<close>,
  found in at most \<open>n\<close> halvings or doublings.
\<close>

fun binade :: "nat \<Rightarrow> real \<Rightarrow> int" where
  "binade 0 x = 0"
| "binade (Suc n) x =
     (if 2 \<le> x then binade n (x / 2) + 1 else if x < 1 then binade n (x * 2) - 1 else 0)"

text \<open>
  The spacing of the binary64 numbers around \<open>x\<close>: 52 fraction bits below the binade,
  and the spacing of the subnormal numbers below the least normal binade \<open>-1022\<close>.
  \<open>round64\<close> rounds to the nearest multiple of that spacing, ties to even; it is the
  IEEE result whenever that result is finite, that is, below \<open>2^1024\<close> in magnitude.
\<close>

definition ulp64 :: "real \<Rightarrow> real" where
  "ulp64 x = (let k = max (binade 1100 \<bar>x\<bar>) (- 1022) - 52
              in if 0 \<le> k then 2 ^ nat k else 1 / 2 ^ nat (- k))"

definition round64 :: "real \<Rightarrow> real" where
  "round64 x = of_int (round_even (x / ulp64 x)) * ulp64 x"

text \<open>
  \<open>self._p[s, a, ns] += v\<close> on a float64 array, and the loops of
  \<open>_populate_probabilities\<close> with the quotient \<open>self.slip / self.n_actions\<close>, the
  difference \<open>1 - self.slip\<close> and both additions rounded. The assignment of 1 to the
  absorbing entry is exact.
\<close>

definition add_at64 :: "tensor \<Rightarrow> int \<Rightarrow> int \<Rightarrow> int \<Rightarrow> real \<Rightarrow> tensor" where
  "add_at64 t s a ns v =
     (\<lambda>s0 a0 ns0. if s0 = s \<and> a0 = a \<and> ns0 = ns then round64 (t s a ns + v) else t s0 a0 ns0)"

definition slip_update64 ::
  "('r, 'm) FrozenLake_scheme \<Rightarrow> int \<Rightarrow> int \<times> int \<Rightarrow> int \<Rightarrow> tensor \<Rightarrow> int \<Rightarrow> tensor" where
  "slip_update64 self st pos action t slip_action =
     (let next_state =
            move_target (FrozenLake.rows self) (FrozenLake.columns self) st pos slip_action;
          t1 = add_at64 t st action next_state
                 (round64 (slip self / real_of_int (n_actions self)))
      in if action = slip_action
         then add_at64 t1 st action next_state (round64 (1 - slip self))
         else t1)"

definition populate_action64 ::
  "('r, 'm) FrozenLake_scheme \<Rightarrow> int \<Rightarrow> int \<times> int \<Rightarrow> tensor \<Rightarrow> int \<Rightarrow> tensor" where
  "populate_action64 self st pos t action =
     foldl (slip_update64 self st pos action) t [0 .. n_actions self - 1]"

definition populate_state64 :: "('r, 'm) FrozenLake_scheme \<Rightarrow> tensor \<Rightarrow> int \<Rightarrow> tensor" where
  "populate_state64 self t st =
     (if terminal_cell self st
      then assign_all_actions t (n_actions self) st (FrozenLake.absorbing_state self) 1
      else foldl (populate_action64 self st (index_to_position st (FrozenLake.columns self))) t
             [0 .. n_actions self - 1])"

definition populate_probabilities64 ::
  "('r, 'm) FrozenLake_scheme \<Rightarrow> ('r, 'm) FrozenLake_scheme" where
  "populate_probabilities64 self =
     self\<lparr>p_tensor := foldl (populate_state64 self) (p_tensor self) [0 .. n_states self - 1]\<rparr>"

definition FrozenLake_init64 :: "grid \<Rightarrow> real \<Rightarrow> int \<Rightarrow> int \<Rightarrow> 'r \<Rightarrow> 'r FrozenLake" where
  "FrozenLake_init64 lk sl ms s0 rs =
     populate_probabilities64
       \<lparr>n_states = grid_size lk + 1, n_actions = int (length actions), max_steps = ms,
        n_steps = 0, state = s0, random_state = rs,
        lake = lk, FrozenLake.rows = shape_rows lk, FrozenLake.columns = shape_columns lk,
        slip = sl, FrozenLake.absorbing_state = grid_size lk + 1 - 1,
        p_tensor = (\<lambda>s a ns. 0)\<rparr>"

text \<open>One row of the tensor: the additions made to it, in order, and their effect.\<close>

definition row_step :: "(int \<Rightarrow> real) \<Rightarrow> int \<times> real \<Rightarrow> (int \<Rightarrow> real)" where
  "row_step r kv = r(fst kv := round64 (r (fst kv) + snd kv))"

definition row_adds :: "('r, 'm) FrozenLake_scheme \<Rightarrow> int \<Rightarrow> int \<Rightarrow> int list \<Rightarrow> (int \<times> real) list" where
  "row_adds self st action sas =
     concat (map (\<lambda>sa.
        (cell_target self st sa, round64 (slip self / real_of_int (n_actions self))) #
        (if action = sa then [(cell_target self st sa, round64 (1 - slip self))] else [])) sas)"

subsection \<open>The solvers\<close>

text \<open>
  Modelled from the spec: \<open>EnvironmentModel.get_prob_rewards\<close> is not among the
  sources. The spec says that the solvers work on the numeric interface of the
  environment: the state count, the action count, the probability tensor and the reward
  tensor. The solvers' own code fixes the layout: \<open>p[s]\<close> is multiplied with
  \<open>value.reshape(-1, 1)\<close> and summed over axis 0 to give one number per action, so
  \<open>p[s][s'][a]\<close> is the probability of reaching \<open>s'\<close> from \<open>s\<close> under \<open>a\<close>, and
  \<open>r\<close> has the same layout. The arrays \<open>policy\<close> and \<open>value\<close> have one entry per
  state, and there is at least one action.
\<close>

record tabular_env =
  env_n_states :: nat
  env_n_actions :: nat
  env_p :: "nat \<Rightarrow> nat \<Rightarrow> nat \<Rightarrow> real"
  env_r :: "nat \<Rightarrow> nat \<Rightarrow> nat \<Rightarrow> real"

text \<open>\<open>np.identity(n)[k]\<close>: row \<open>k\<close> of the identity matrix, with numpy's bounds check.\<close>

definition identity_row :: "nat \<Rightarrow> int \<Rightarrow> error + real list" where
  "identity_row n k =
     (case np_index (int n) k of
        None \<Rightarrow> Inl IndexError
      | Some i \<Rightarrow> Inr (map (\<lambda>a. if int a = i then 1 else 0) [0 ..< n]))"

text \<open>
  \<open>np.sum(policy_action_prob * p[s] * (r[s] + (gamma * value.reshape(-1, 1))))\<close>,
  the sum of all entries of the product array.
\<close>

definition policy_backup ::
  "tabular_env \<Rightarrow> int list \<Rightarrow> real \<Rightarrow> real list \<Rightarrow> nat \<Rightarrow> error + real" where
  "policy_backup env policy gamma val s =
     (case identity_row (env_n_actions env) (policy ! s) of
        Inl e \<Rightarrow> Inl e
      | Inr policy_action_prob \<Rightarrow>
          Inr (\<Sum>s'\<leftarrow>[0 ..< env_n_states env]. \<Sum>a\<leftarrow>[0 ..< env_n_actions env].
                 policy_action_prob ! a * env_p env s s' a *
                   (env_r env s s' a + gamma * val ! s')))"

text \<open>A loop whose body may raise stops at the first error.\<close>

fun foldM :: "('b \<Rightarrow> 'a \<Rightarrow> error + 'b) \<Rightarrow> 'b \<Rightarrow> 'a list \<Rightarrow> error + 'b" where
  "foldM f acc [] = Inr acc"
| "foldM f acc (x # xs) = (case f acc x of Inl e \<Rightarrow> Inl e | Inr acc' \<Rightarrow> foldM f acc' xs)"

text \<open>
  The body of the sweep over the states: the value array is updated in place, so later
  states of the same sweep read the entries already written.
\<close>

definition evaluation_step ::
  "tabular_env \<Rightarrow> int list \<Rightarrow> real \<Rightarrow> real list \<times> real \<Rightarrow> nat \<Rightarrow>
     error + (real list \<times> real)" where
  "evaluation_step env policy gamma acc s =
     (let val = fst acc; delta = snd acc; current_value = val ! s
      in case policy_backup env policy gamma val s of
           Inl e \<Rightarrow> Inl e
         | Inr v \<Rightarrow> Inr (val[s := v], max delta \<bar>current_value - v\<bar>))"

function policy_evaluation_loop ::
  "tabular_env \<Rightarrow> int list \<Rightarrow> real \<Rightarrow> real \<Rightarrow> int \<Rightarrow> int \<Rightarrow> bool \<Rightarrow> real list \<Rightarrow>
     error + real list" where
  "policy_evaluation_loop env policy gamma theta max_iterations curr_iteration stop val =
     (if curr_iteration < max_iterations \<and> \<not> stop
      then
        (case foldM (evaluation_step env policy gamma) (val, 0) [0 ..< env_n_states env] of
           Inl e \<Rightarrow> Inl e
         | Inr (val', delta) \<Rightarrow>
             policy_evaluation_loop env policy gamma theta max_iterations
               (curr_iteration + 1) (delta < theta) val')
      else Inr val)"
  by pat_completeness auto
termination
  by (relation "measure (\<lambda>(env, policy, gamma, theta, max_iterations, curr_iteration, stop, val).
        nat (max_iterations - curr_iteration))") auto

definition policy_evaluation ::
  "tabular_env \<Rightarrow> int list \<Rightarrow> real \<Rightarrow> real \<Rightarrow> int \<Rightarrow> error + real list" where
  "policy_evaluation env policy gamma theta max_iterations =
     policy_evaluation_loop env policy gamma theta max_iterations 0 False
       (replicate (env_n_states env) 0)"

text \<open>
  \<open>np.sum(p[s] * (r[s] + (gamma * value.reshape(-1, 1))), axis=0)\<close>: one entry per
  action.
\<close>

definition action_values :: "tabular_env \<Rightarrow> real \<Rightarrow> real list \<Rightarrow> nat \<Rightarrow> real list" where
  "action_values env gamma val s =
     map (\<lambda>a. \<Sum>s'\<leftarrow>[0 ..< env_n_states env].
                env_p env s s' a * (env_r env s s' a + gamma * val ! s'))
       [0 ..< env_n_actions env]"

text \<open>\<open>np.argmax\<close> on a non-empty array: the first index of the greatest entry.\<close>

fun argmax :: "real list \<Rightarrow> nat" where
  "argmax [] = 0"
| "argmax [x] = 0"
| "argmax (x # y # ys) = (let k = argmax (y # ys) in if x < (y # ys) ! k then Suc k else 0)"

definition policy_improvement ::
  "tabular_env \<Rightarrow> int list \<Rightarrow> real list \<Rightarrow> real \<Rightarrow> int list \<times> bool" where
  "policy_improvement env policy val gamma =
     (let improved_policy =
            map (\<lambda>s. int (argmax (action_values env gamma val s))) [0 ..< env_n_states env]
      in (improved_policy, policy = improved_policy))"

text \<open>
  The files written by \<open>np.save\<close>: a store from file names to the saved value arrays.
\<close>

type_synonym files = "string \<rightharpoonup> real list"

definition save_file :: "string \<Rightarrow> real list \<Rightarrow> files \<Rightarrow> files" where
  "save_file npy_filename val fs = fs(npy_filename \<mapsto> val)"

function policy_iteration_loop ::
  "tabular_env \<Rightarrow> real \<Rightarrow> real \<Rightarrow> int \<Rightarrow> int \<Rightarrow> bool \<Rightarrow> int list \<Rightarrow> real list \<Rightarrow>
     error + (int list \<times> real list)" where
  "policy_iteration_loop env gamma theta max_iterations current_iteration stop policy val =
     (if current_iteration < max_iterations \<and> \<not> stop
      then
        (case policy_evaluation env policy gamma theta max_iterations of
           Inl e \<Rightarrow> Inl e
         | Inr val' \<Rightarrow>
             (let (policy', stop') = policy_improvement env policy val' gamma
              in policy_iteration_loop env gamma theta max_iterations
                   (current_iteration + 1) stop' policy' val'))
      else Inr (policy, val))"
  by pat_completeness auto
termination
  by (relation "measure (\<lambda>(env, gamma, theta, max_iterations, current_iteration, stop, policy, val).
        nat (max_iterations - current_iteration))") auto

definition npy_filename :: "tabular_env \<Rightarrow> string" where
  "npy_filename env =
     (if env_n_states env = 17 then ''data/small_frozenlake_policy_evaluation.npy''
      else ''data/big_frozenlake_policy_evaluation.npy'')"

definition policy_iteration ::
  "tabular_env \<Rightarrow> real \<Rightarrow> real \<Rightarrow> int \<Rightarrow> files \<Rightarrow>
     (error + (int list \<times> real list)) \<times> files" where
  "policy_iteration env gamma theta max_iterations fs =
     (case policy_iteration_loop env gamma theta max_iterations 0 False
             (replicate (env_n_states env) 0) (replicate (env_n_states env) 0) of
        Inl e \<Rightarrow> (Inl e, fs)
      | Inr (policy, val) \<Rightarrow> (Inr (policy, val), save_file (npy_filename env) val fs))"

subsection \<open>Example inputs\<close>

text \<open>The lake and the grid of \<open>run_env.py\<close>, and a draw that moves to the next index.\<close>

definition lake4 :: grid where
  "lake4 = [[''&'', ''.'', ''.'', ''.''],
            [''.'', ''#'', ''.'', ''#''],
            [''.'', ''.'', ''.'', ''#''],
            [''#'', ''.'', ''.'', ''$'']]"

definition grid4 :: grid where
  "grid4 = [[''&'', ''.'', ''.'', ''.''],
            [''.'', ''#'', ''.'', ''#''],
            [''.'', ''.'', ''.'', pound],
            [''#'', ''.'', ''.'', ''$'']]"

definition next_draw :: "(unit, int) draw" where
  "next_draw rs st a = ((st + 1, 0), rs)"

text \<open>
  The cell reached from a cell state by a movement delta, in the words of the
  specification: the delta is applied to the (row, column) coordinate of the state, and a
  move that leaves the grid returns to the state itself.
\<close>

definition reached_cell :: "grid \<Rightarrow> int \<Rightarrow> int \<Rightarrow> int" where
  "reached_cell g s a =
     (let cols = shape_columns g;
          x = s div cols + fst (actions ! nat a);
          y = s mod cols + snd (actions ! nat a)
      in if 0 \<le> x \<and> x < shape_rows g \<and> 0 \<le> y \<and> y < cols then x * cols + y else s)"

subsection \<open>The tables the solvers read\<close>

text \<open>
  Modelled from the spec: \<open>EnvironmentModel.get_prob_rewards\<close> is not among the
  sources. For a concrete environment it tabulates the oracles \<open>p\<close> and \<open>r\<close> over
  the states, next states and actions of the environment, where the oracles do not fail.
\<close>

definition FrozenLake_prob_rewards :: "('r, 'm) FrozenLake_scheme \<Rightarrow> tabular_env" where
  "FrozenLake_prob_rewards self =
     \<lparr>env_n_states = nat (n_states self), env_n_actions = nat (n_actions self),
      env_p = (\<lambda>s s' a. case FrozenLake_p self (int s') (int s) (int a) of
                            Inr v \<Rightarrow> v | Inl e \<Rightarrow> 0),
      env_r = (\<lambda>s s' a. case FrozenLake_r self (int s') (int s) (int a) of
                            Inr v \<Rightarrow> real_of_int v | Inl e \<Rightarrow> 0)\<rparr>"

definition GridWorld_prob_rewards :: "('r, 'm) GridWorld_scheme \<Rightarrow> tabular_env" where
  "GridWorld_prob_rewards self =
     \<lparr>env_n_states = nat (n_states self), env_n_actions = nat (n_actions self),
      env_p = (\<lambda>s s' a. case GridWorld_p self (int s') (int s) (int a) of
                            Inr v \<Rightarrow> real_of_int v | Inl e \<Rightarrow> 0),
      env_r = (\<lambda>s s' a. case GridWorld_r self (int s') (int s) (int a) of
                            Inr v \<Rightarrow> real_of_int v | Inl e \<Rightarrow> 0)\<rparr>"

text \<open>
  The absorbing state of a table, the condition that its rows do not depend on the action,
  and the entries of a policy that \<open>np.identity(n_actions)\<close> can be indexed with.
\<close>

definition last_state :: "tabular_env \<Rightarrow> nat" where
  "last_state env = env_n_states env - 1"

definition absorbing_uniform :: "tabular_env \<Rightarrow> bool" where
  "absorbing_uniform env =
     list_all (\<lambda>a. list_all (\<lambda>s'.
         env_p env (last_state env) s' a = env_p env (last_state env) s' 0 \<and>
         env_r env (last_state env) s' a = env_r env (last_state env) s' 0)
       [0 ..< env_n_states env]) [0 ..< env_n_actions env]"

definition valid_action :: "tabular_env \<Rightarrow> int \<Rightarrow> bool" where
  "valid_action env k \<longleftrightarrow> 0 \<le> k \<and> k < int (env_n_actions env)"

text \<open>A lake of a single start cell.\<close>

definition lake1 :: grid where
  "lake1 = [[''&'']]"

section \<open>Properties of the environments\<close>

subsection \<open>The constructed objects\<close>

lemma FrozenLake_init_fields:
  "n_states (FrozenLake_init lk sl ms s0 rs) = grid_size lk + 1"
  "n_actions (FrozenLake_init lk sl ms s0 rs) = 4"
  "max_steps (FrozenLake_init lk sl ms s0 rs) = ms"
  "n_steps (FrozenLake_init lk sl ms s0 rs) = 0"
  "state (FrozenLake_init lk sl ms s0 rs) = s0"
  "random_state (FrozenLake_init lk sl ms s0 rs) = rs"
  "lake (FrozenLake_init lk sl ms s0 rs) = lk"
  "FrozenLake.rows (FrozenLake_init lk sl ms s0 rs) = shape_rows lk"
  "FrozenLake.columns (FrozenLake_init lk sl ms s0 rs) = shape_columns lk"
  "slip (FrozenLake_init lk sl ms s0 rs) = sl"
  "FrozenLake.absorbing_state (FrozenLake_init lk sl ms s0 rs) = grid_size lk"
  by (simp_all add: FrozenLake_init_def populate_probabilities_def actions_def)

lemma GridWorld_init_fields:
  "n_states (GridWorld_init gr ms s0 rs) = grid_size gr + 1"
  "n_actions (GridWorld_init gr ms s0 rs) = 4"
  "max_steps (GridWorld_init gr ms s0 rs) = ms"
  "n_steps (GridWorld_init gr ms s0 rs) = 0"
  "state (GridWorld_init gr ms s0 rs) = s0"
  "random_state (GridWorld_init gr ms s0 rs) = rs"
  "world (GridWorld_init gr ms s0 rs) = gr"
  "GridWorld.rows (GridWorld_init gr ms s0 rs) = shape_rows gr"
  "GridWorld.columns (GridWorld_init gr ms s0 rs) = shape_columns gr"
  "GridWorld.absorbing_state (GridWorld_init gr ms s0 rs) = grid_size gr"
  by (simp_all add: GridWorld_init_def)

lemma shape_lake4: "shape_rows lake4 = 4" "shape_columns lake4 = 4" "grid_size lake4 = 16"
  by (simp_all add: grid_size_def shape_rows_def shape_columns_def lake4_def)

lemma shape_grid4: "shape_rows grid4 = 4" "shape_columns grid4 = 4" "grid_size grid4 = 16"
  by (simp_all add: grid_size_def shape_rows_def shape_columns_def grid4_def)

lemma wf_lake4: "wf_grid lake4"
  by (simp add: wf_grid_def lake4_def)

lemma wf_grid4: "wf_grid grid4"
  by (simp add: wf_grid_def grid4_def)

subsection \<open>The probability tensor of the slippery grid\<close>

lemma upto_0_3: "[0 .. (3::int)] = [0, 1, 2, 3]"
  by (simp add: upto.simps)

lemma slip_update_apply:
  "slip_update self st (index_to_position st (FrozenLake.columns self)) a t sa s0 a0 ns0 =
     t s0 a0 ns0 + (if s0 = st \<and> a0 = a then slip_mass self st a sa ns0 else 0)"
  by (simp add: slip_update_def add_at_def slip_mass_def cell_target_def Let_def)

lemma populate_action_fold:
  "foldl (slip_update self st (index_to_position st (FrozenLake.columns self)) a) t sas s0 a0 ns0 =
     t s0 a0 ns0 + (if s0 = st \<and> a0 = a then (\<Sum>sa\<leftarrow>sas. slip_mass self st a sa ns0) else 0)"
  by (induction sas arbitrary: t) (simp_all add: slip_update_apply)

lemma populate_action_apply:
  "populate_action self st (index_to_position st (FrozenLake.columns self)) t a s0 a0 ns0 =
     t s0 a0 ns0 + (if s0 = st \<and> a0 = a
        then (\<Sum>sa\<leftarrow>[0 .. n_actions self - 1]. slip_mass self st a sa ns0) else 0)"
  by (simp add: populate_action_def populate_action_fold)

lemma populate_actions_fold:
  "foldl (populate_action self st (index_to_position st (FrozenLake.columns self))) t as s0 a0 ns0 =
     t s0 a0 ns0 + (if s0 = st
        then (\<Sum>a\<leftarrow>as. if a0 = a then (\<Sum>sa\<leftarrow>[0 .. n_actions self - 1]. slip_mass self st a sa ns0) else 0) else 0)"
  by (induction as arbitrary: t) (simp_all add: populate_action_apply)

lemma sum_list_delta_distinct:
  "distinct xs \<Longrightarrow> (\<Sum>x\<leftarrow>xs. if k = x then f x else (0::real)) = (if k \<in> set xs then f k else 0)"
  by (induction xs) auto

lemma populate_state_other:
  "s0 \<noteq> st \<Longrightarrow> populate_state self t st s0 a0 ns0 = t s0 a0 ns0"
  by (simp add: populate_state_def assign_all_actions_def populate_actions_fold)

lemma populate_state_terminal:
  "terminal_cell self st \<Longrightarrow> 0 \<le> a0 \<Longrightarrow> a0 < n_actions self \<Longrightarrow>
   populate_state self t st st a0 ns0 = (if ns0 = FrozenLake.absorbing_state self then 1 else t st a0 ns0)"
  by (simp add: populate_state_def assign_all_actions_def)

lemma populate_state_cell:
  "\<not> terminal_cell self st \<Longrightarrow> 0 \<le> a0 \<Longrightarrow> a0 < n_actions self \<Longrightarrow>
   populate_state self t st st a0 ns0 =
     t st a0 ns0 + (\<Sum>sa\<leftarrow>[0 .. n_actions self - 1]. slip_mass self st a0 sa ns0)"
  by (simp add: populate_state_def populate_actions_fold sum_list_delta_distinct)

lemma populate_state_row:
  "populate_state self (populate_state self t s) s0 s0 a0 ns0 = populate_state self t s0 s0 a0 ns0"
  if "s0 \<noteq> s"
  using that
  by (simp add: populate_state_def assign_all_actions_def populate_actions_fold)

lemma populate_fold_notin:
  "s0 \<notin> set sts \<Longrightarrow> foldl (populate_state self) t sts s0 a0 ns0 = t s0 a0 ns0"
  by (induction sts arbitrary: t) (simp_all add: populate_state_other)

lemma populate_fold_in:
  "distinct sts \<Longrightarrow> s0 \<in> set sts \<Longrightarrow>
   foldl (populate_state self) t sts s0 a0 ns0 = populate_state self t s0 s0 a0 ns0"
proof (induction sts arbitrary: t)
  case Nil
  then show ?case by simp
next
  case (Cons s sts)
  show ?case
  proof (cases "s0 = s")
    case True
    with Cons.prems have "s0 \<notin> set sts" by simp
    then show ?thesis using True by (simp add: populate_fold_notin)
  next
    case False
    with Cons.prems have "s0 \<in> set sts" "distinct sts" by simp_all
    then have "foldl (populate_state self) (populate_state self t s) sts s0 a0 ns0 =
      populate_state self (populate_state self t s) s0 s0 a0 ns0"
      by (rule Cons.IH[rotated])
    also have "\<dots> = populate_state self t s0 s0 a0 ns0"
      using False by (rule populate_state_row)
    finally show ?thesis by simp
  qed
qed

lemma slip_update_p_tensor_update:
  "slip_update (self\<lparr>p_tensor := t'\<rparr>) = slip_update self"
  by (intro ext) (simp add: slip_update_def Let_def)

lemma populate_action_p_tensor_update:
  "populate_action (self\<lparr>p_tensor := t'\<rparr>) = populate_action self"
  by (intro ext) (simp add: populate_action_def slip_update_p_tensor_update)

lemma populate_state_p_tensor_update:
  "populate_state (self\<lparr>p_tensor := t'\<rparr>) = populate_state self"
  by (intro ext)
    (simp add: populate_state_def terminal_cell_def populate_action_p_tensor_update)

lemma p_tensor_init:
  "p_tensor (FrozenLake_init lk sl ms s0 rs) =
     foldl (populate_state (FrozenLake_init lk sl ms s0 rs)) (\<lambda>s a ns. 0) [0 .. grid_size lk]"
  apply (simp only: FrozenLake_init_def populate_probabilities_def
      populate_state_p_tensor_update)
  apply simp
  done

lemma p_tensor_terminal:
  assumes "terminal_cell (FrozenLake_init lk sl ms s0 rs) s"
    and "0 \<le> s" "s \<le> grid_size lk" "0 \<le> a" "a < 4"
  shows "p_tensor (FrozenLake_init lk sl ms s0 rs) s a ns = (if ns = grid_size lk then 1 else 0)"
  using assms
  by (simp add: p_tensor_init populate_fold_in populate_state_terminal FrozenLake_init_fields)

lemma p_tensor_cell:
  assumes "\<not> terminal_cell (FrozenLake_init lk sl ms s0 rs) s"
    and "0 \<le> s" "s \<le> grid_size lk" "0 \<le> a" "a < 4"
  shows "p_tensor (FrozenLake_init lk sl ms s0 rs) s a ns =
           (\<Sum>sa\<leftarrow>[0, 1, 2, 3]. slip_mass (FrozenLake_init lk sl ms s0 rs) s a sa ns)"
  using assms
  by (simp add: p_tensor_init populate_fold_in populate_state_cell FrozenLake_init_fields
      upto_0_3 del: sum_list.Cons)

lemma np_index_in_range: "0 \<le> i \<Longrightarrow> i < n \<Longrightarrow> np_index n i = Some i"
  by (simp add: np_index_def)

lemma FrozenLake_p_in_range:
  assumes "0 \<le> s" "s \<le> grid_size lk" "0 \<le> a" "a < 4" "0 \<le> ns" "ns \<le> grid_size lk"
  shows "FrozenLake_p (FrozenLake_init lk sl ms s0 rs) ns s a =
           Inr (p_tensor (FrozenLake_init lk sl ms s0 rs) s a ns)"
  using assms
  by (simp add: FrozenLake_p_def p_tensor_at_def np_index_in_range FrozenLake_init_fields)

lemma cell_target_init:
  "cell_target (FrozenLake_init lk sl ms s0 rs) s a = reached_cell lk s a"
  by (simp add: cell_target_def reached_cell_def move_target_def index_to_position_def
      position_to_index_def FrozenLake_init_fields Let_def)

lemma slip_mass_sum:
  assumes "0 \<le> a" "a < 4"
  shows "(\<Sum>sa\<leftarrow>[0, 1, 2, 3]. slip_mass (FrozenLake_init lk sl ms s0 rs) s a sa ns) =
         (\<Sum>a'\<leftarrow>[0, 1, 2, 3]. if reached_cell lk s a' = ns then sl / 4 else 0) +
         (if reached_cell lk s a = ns then 1 - sl else 0)"
proof -
  from assms have "a = 0 \<or> a = 1 \<or> a = 2 \<or> a = 3" by arith
  then show ?thesis
    by (auto simp add: slip_mass_def cell_target_init FrozenLake_init_fields)
qed

lemma int_div_less_rows:
  assumes "s < c * r" "0 < (c::int)"
  shows "s div c < r"
proof -
  have "c * (s div c) + s mod c = s" by (rule mult_div_mod_eq)
  moreover have "0 \<le> s mod c" using assms(2) by simp
  ultimately have "c * (s div c) < c * r" using assms(1) by linarith
  then show ?thesis using assms(2) by (simp add: mult_less_cancel_left_pos)
qed

lemma cell_position:
  assumes "0 \<le> s" "s < grid_size g"
  shows "0 < shape_columns g" "0 < shape_rows g"
    "0 \<le> s div shape_columns g" "s div shape_columns g < shape_rows g"
    "0 \<le> s mod shape_columns g" "s mod shape_columns g < shape_columns g"
proof -
  have r: "0 \<le> shape_rows g" and c: "0 \<le> shape_columns g"
    by (simp_all add: shape_rows_def shape_columns_def split: list.splits)
  from assms have pos: "0 < shape_rows g * shape_columns g"
    by (simp add: grid_size_def)
  show c0: "0 < shape_columns g"
    using pos r c by (metis less_le mult_zero_right)
  show "0 < shape_rows g"
    using pos r c by (metis less_le mult_zero_left)
  show "0 \<le> s div shape_columns g"
    using assms c0 by (simp add: pos_imp_zdiv_nonneg_iff)
  show "s div shape_columns g < shape_rows g"
    using assms c0 by (simp add: grid_size_def int_div_less_rows mult.commute)
  show "0 \<le> s mod shape_columns g" "s mod shape_columns g < shape_columns g"
    using c0 by simp_all
qed

lemma grid_at_cell:
  assumes "0 \<le> s" "s < grid_size g"
  shows "grid_at g (s div shape_columns g) (s mod shape_columns g) =
           Inr (g ! nat (s div shape_columns g) ! nat (s mod shape_columns g))"
  using cell_position[OF assms]
  by (simp add: grid_at_def np_index_in_range)


lemma not_terminal_cell:
  assumes "0 \<le> s" "s < grid_size lk"
    and "grid_at lk (s div shape_columns lk) (s mod shape_columns lk) = Inr c"
    and "c \<noteq> ''#''" "c \<noteq> ''$''"
  shows "\<not> terminal_cell (FrozenLake_init lk sl ms s0 rs) s"
  using assms grid_at_cell[OF assms(1,2)]
  by (simp add: terminal_cell_def FrozenLake_init_fields index_to_position_def)

lemma sum_upto_delta:
  assumes "0 \<le> T" "T \<le> m"
  shows "(\<Sum>ns\<leftarrow>[0 .. m]. if T = ns then c else (0::'a::comm_monoid_add)) = c"
proof -
  have "(\<Sum>ns\<leftarrow>[0 .. m]. if T = ns then c else 0) = (\<Sum>ns\<in>{0 .. m}. if T = ns then c else 0)"
    by (simp add: sum_list_distinct_conv_sum_set)
  also have "\<dots> = c" using assms by simp
  finally show ?thesis .
qed

lemma position_in_grid:
  assumes "0 \<le> x" "x < r" "0 \<le> y" "y < (c::int)"
  shows "0 \<le> x * c + y" "x * c + y < r * c"
proof -
  from assms have c0: "0 \<le> c" by simp
  show "0 \<le> x * c + y" using assms c0 by simp
  have "x * c + y < (x + 1) * c" using assms by (simp add: algebra_simps)
  also have "(x + 1) * c \<le> r * c" using assms c0 by (intro mult_right_mono) simp_all
  finally show "x * c + y < r * c" .
qed

lemma reached_cell_range:
  assumes "0 \<le> s" "s < grid_size lk"
  shows "0 \<le> reached_cell lk s a \<and> reached_cell lk s a < grid_size lk"
  using assms
  by (auto simp add: reached_cell_def Let_def grid_size_def position_in_grid)

lemma FrozenLake_row_eq:
  assumes "0 \<le> s" "s \<le> grid_size lk" "0 \<le> a" "a < 4"
  shows "FrozenLake_row (FrozenLake_init lk sl ms s0 rs) s a =
           map Inr (map (p_tensor (FrozenLake_init lk sl ms s0 rs) s a) [0 .. grid_size lk])"
  using assms
  by (simp add: FrozenLake_row_def FrozenLake_init_fields FrozenLake_p_in_range)

text \<open>With exact arithmetic the masses of a row add up to exactly 1.\<close>

lemma FrozenLake_row_sum:
  assumes "0 \<le> s" "s \<le> grid_size lk" "0 \<le> a" "a < 4"
  shows "sum_list (map (p_tensor (FrozenLake_init lk sl ms s0 rs) s a) [0 .. grid_size lk]) = 1"
proof (cases "terminal_cell (FrozenLake_init lk sl ms s0 rs) s")
  case True
  have eq: "map (p_tensor (FrozenLake_init lk sl ms s0 rs) s a) [0 .. grid_size lk] =
      map (\<lambda>ns. if grid_size lk = ns then 1 else 0) [0 .. grid_size lk]"
    using True assms by (auto simp add: p_tensor_terminal)
  have "0 \<le> grid_size lk" using assms by simp
  then have "(\<Sum>ns\<leftarrow>[0 .. grid_size lk]. if grid_size lk = ns then 1 else (0::real)) = 1"
    by (simp add: sum_upto_delta)
  then show ?thesis by (simp only: eq)
next
  case False
  then have lt: "s < grid_size lk"
    using assms by (auto simp add: terminal_cell_def FrozenLake_init_fields)
  have rng: "\<And>a'. 0 \<le> reached_cell lk s a' \<and> reached_cell lk s a' \<le> grid_size lk"
    using reached_cell_range[OF assms(1) lt] by (simp add: less_imp_le)
  have pt: "p_tensor (FrozenLake_init lk sl ms s0 rs) s a =
      (\<lambda>ns. (\<Sum>a'\<leftarrow>[0, 1, 2, 3]. if reached_cell lk s a' = ns then sl / 4 else 0) +
            (if reached_cell lk s a = ns then 1 - sl else 0))"
  proof (rule ext)
    fix ns
    show "p_tensor (FrozenLake_init lk sl ms s0 rs) s a ns =
      (\<Sum>a'\<leftarrow>[0, 1, 2, 3]. if reached_cell lk s a' = ns then sl / 4 else 0) +
            (if reached_cell lk s a = ns then 1 - sl else 0)"
      using p_tensor_cell[OF False assms, of ns]
        slip_mass_sum[OF assms(3,4), of lk sl ms s0 rs s ns]
      by (simp only:)
  qed
  have "(\<Sum>ns\<leftarrow>[0 .. grid_size lk].
        (\<Sum>a'\<leftarrow>[0, 1, 2, 3]. if reached_cell lk s a' = ns then sl / 4 else 0) +
        (if reached_cell lk s a = ns then 1 - sl else 0)) = 1"
    using rng by (simp add: sum_list_addf sum_upto_delta)
  then show ?thesis by (simp only: pt)
qed

subsection \<open>The transitions of the reward grid\<close>

lemma actions_at_in_range:
  "0 \<le> a \<Longrightarrow> a < 4 \<Longrightarrow> actions_at a = Inr (actions ! nat a)"
  by (simp add: actions_at_def actions_def np_index_in_range)

lemma grid_at_in_range:
  "0 \<le> x \<Longrightarrow> x < shape_rows g \<Longrightarrow> 0 \<le> y \<Longrightarrow> y < shape_columns g \<Longrightarrow>
   grid_at g x y = Inr (g ! nat x ! nat y)"
  by (simp add: grid_at_def np_index_in_range)

lemma GridWorld_p_absorbing:
  assumes "0 \<le> a" "a < 4"
  shows "GridWorld_p (GridWorld_init gr ms s0 rs) ns (grid_size gr) a =
           Inr (if ns = grid_size gr then 1 else 0)"
  using assms
  by (auto simp add: GridWorld_p_def GridWorld_init_fields actions_at_in_range
      index_to_position_def Let_def)

lemma GridWorld_p_target:
  assumes "0 \<le> s" "s \<le> grid_size gr" "0 \<le> a" "a < 4"
  shows "\<exists>T. 0 \<le> T \<and> T \<le> grid_size gr \<and>
           (\<forall>ns. GridWorld_p (GridWorld_init gr ms s0 rs) ns s a = Inr (if T = ns then 1 else 0))"
proof (cases "s = grid_size gr")
  case True
  have "\<forall>ns. GridWorld_p (GridWorld_init gr ms s0 rs) ns s a = Inr (if s = ns then 1 else 0)"
    using GridWorld_p_absorbing[OF assms(3,4), of gr ms s0 rs] True by auto
  then show ?thesis using assms by blast
next
  case False
  then have lt: "s < grid_size gr" using assms by simp
  let ?x = "s div shape_columns gr"
  let ?y = "s mod shape_columns gr"
  let ?nx = "?x + fst (actions ! nat a)"
  let ?ny = "?y + snd (actions ! nat a)"
  let ?c = "gr ! nat ?x ! nat ?y"
  let ?inb = "0 \<le> ?nx \<and> ?nx < shape_rows gr \<and> 0 \<le> ?ny \<and> ?ny < shape_columns gr"
  note cell = grid_at_cell[OF assms(1) lt]
  note defs = GridWorld_p_def GridWorld_init_fields actions_at_in_range[OF assms(3,4)]
    index_to_position_def Let_def
  have pound_ne: "pound \<noteq> ''#''" by (simp add: pound_def)
  have stay: "\<exists>T. 0 \<le> T \<and> T \<le> grid_size gr \<and>
           (\<forall>ns. GridWorld_p (GridWorld_init gr ms s0 rs) ns s a = Inr (if T = ns then 1 else 0))"
    if "\<forall>ns. GridWorld_p (GridWorld_init gr ms s0 rs) ns s a = Inr (of_bool (s = ns))"
    using that assms(1,2) by (intro exI[of _ s]) simp
  consider (wall) "?c = ''#''"
    | (goal) "?c \<noteq> ''#''" "?c = pound \<or> ?c = ''$''"
    | (move) "?c \<noteq> ''#''" "?c \<noteq> pound" "?c \<noteq> ''$''" "?inb"
        "gr ! nat ?nx ! nat ?ny \<noteq> ''#''"
    | (blocked) "?c \<noteq> ''#''" "?c \<noteq> pound" "?c \<noteq> ''$''" "?inb"
        "gr ! nat ?nx ! nat ?ny = ''#''"
    | (edge) "?c \<noteq> ''#''" "?c \<noteq> pound" "?c \<noteq> ''$''" "\<not> ?inb"
    by blast
  then show ?thesis
  proof cases
    case wall
    have "\<forall>ns. GridWorld_p (GridWorld_init gr ms s0 rs) ns s a = Inr (of_bool (s = ns))"
      using False wall by (simp add: defs cell split del: if_split)
    then show ?thesis by (rule stay)
  next
    case goal
    have "\<forall>ns. GridWorld_p (GridWorld_init gr ms s0 rs) ns s a =
        Inr (of_bool (ns = grid_size gr))"
      using False goal by (simp add: defs cell split del: if_split)
    then have "\<forall>ns. GridWorld_p (GridWorld_init gr ms s0 rs) ns s a =
        Inr (if grid_size gr = ns then 1 else 0)"
      by (simp add: eq_commute[of "grid_size gr"])
    moreover have "0 \<le> grid_size gr" using assms by simp
    ultimately show ?thesis by blast
  next
    case move
    have nb: "grid_at gr ?nx ?ny = Inr (gr ! nat ?nx ! nat ?ny)"
      using move(4) by (intro grid_at_in_range) simp_all
    have inb: "?inb = True" using move(4) by simp
    have "\<forall>ns. GridWorld_p (GridWorld_init gr ms s0 rs) ns s a =
        Inr (of_bool (ns = position_to_index ?nx ?ny (shape_columns gr)))"
      using False move(1,2,3,5) by (simp add: defs cell inb nb split del: if_split)
    then have "\<forall>ns. GridWorld_p (GridWorld_init gr ms s0 rs) ns s a =
        Inr (if position_to_index ?nx ?ny (shape_columns gr) = ns then 1 else 0)"
      by (simp add: eq_commute[of "position_to_index ?nx ?ny (shape_columns gr)"])
    moreover have "0 \<le> position_to_index ?nx ?ny (shape_columns gr)"
      "position_to_index ?nx ?ny (shape_columns gr) \<le> grid_size gr"
      using move(4) position_in_grid[of ?nx "shape_rows gr" ?ny "shape_columns gr"]
      by (simp_all add: position_to_index_def grid_size_def)
    ultimately show ?thesis by blast
  next
    case blocked
    have nb: "grid_at gr ?nx ?ny = Inr (gr ! nat ?nx ! nat ?ny)"
      using blocked(4) by (intro grid_at_in_range) simp_all
    have inb: "?inb = True" using blocked(4) by simp
    have "\<forall>ns. GridWorld_p (GridWorld_init gr ms s0 rs) ns s a = Inr (of_bool (s = ns))"
      using False blocked(1,2,3,5) by (simp add: defs cell inb nb split del: if_split)
    then show ?thesis by (rule stay)
  next
    case edge
    have inb: "?inb = False" using edge(4) by simp
    have "\<forall>ns. GridWorld_p (GridWorld_init gr ms s0 rs) ns s a = Inr (of_bool (s = ns))"
      using False edge(1,2,3) by (simp add: defs cell inb split del: if_split)
    then show ?thesis by (rule stay)
  qed
qed

lemma GridWorld_row_sum:
  assumes "0 \<le> s" "s \<le> grid_size gr" "0 \<le> a" "a < 4"
  shows "\<exists>qs. GridWorld_row (GridWorld_init gr ms s0 rs) s a = map Inr qs \<and> sum_list qs = 1"
proof -
  obtain T where T: "0 \<le> T" "T \<le> grid_size gr"
    and p: "\<And>ns. GridWorld_p (GridWorld_init gr ms s0 rs) ns s a = Inr (if T = ns then 1 else 0)"
    using GridWorld_p_target[OF assms, of ms s0 rs] by blast
  have "GridWorld_row (GridWorld_init gr ms s0 rs) s a =
      map Inr (map (\<lambda>ns. if T = ns then 1 else 0) [0 .. grid_size gr])"
    by (simp add: GridWorld_row_def GridWorld_init_fields p)
  moreover have "sum_list (map (\<lambda>ns. if T = ns then 1 else (0::int)) [0 .. grid_size gr]) = 1"
    using T by (rule sum_upto_delta)
  ultimately show ?thesis by blast
qed

subsection \<open>The probability tensor in binary64 arithmetic\<close>

lemma round_even_error: "\<bar>of_int (round_even y) - y\<bar> \<le> 1 / 2"
proof -
  have "of_int \<lfloor>y\<rfloor> \<le> y" "y < of_int \<lfloor>y\<rfloor> + 1" by linarith+
  then show ?thesis by (auto simp add: round_even_def Let_def)
qed

lemma round_even_nonneg: "0 \<le> y \<Longrightarrow> 0 \<le> round_even y"
proof -
  assume "0 \<le> y"
  then have "0 \<le> \<lfloor>y\<rfloor>" by simp
  then show ?thesis by (auto simp add: round_even_def Let_def)
qed

lemma binade_le_0: "x < 2 \<Longrightarrow> binade n x \<le> 0"
proof (induction n arbitrary: x)
  case 0
  then show ?case by simp
next
  case (Suc n)
  have "binade n (x * 2) \<le> 0" if "x < 1"
    using that by (intro Suc.IH) simp
  then show ?case using Suc.prems by auto
qed

lemma ulp64_small:
  assumes "\<bar>x\<bar> < 2"
  shows "0 < ulp64 x" "ulp64 x \<le> 1 / 2 ^ 52"
proof -
  define k where "k = max (binade 1100 \<bar>x\<bar>) (- 1022) - 52"
  have "binade 1100 \<bar>x\<bar> \<le> 0" using assms by (rule binade_le_0)
  then have k: "k \<le> - 52" by (simp add: k_def)
  then have u: "ulp64 x = 1 / 2 ^ nat (- k)"
    by (simp add: ulp64_def k_def[symmetric] Let_def)
  show "0 < ulp64 x" unfolding u by simp
  have "(2::real) ^ 52 \<le> 2 ^ nat (- k)"
    using k by (intro power_increasing) simp_all
  then show "ulp64 x \<le> 1 / 2 ^ 52"
    unfolding u by (simp add: field_simps)
qed

lemma round64_error:
  assumes "\<bar>x\<bar> < 2"
  shows "\<bar>round64 x - x\<bar> \<le> 1 / 2 ^ 53"
proof -
  note u = ulp64_small[OF assms]
  have "round64 x - x = (of_int (round_even (x / ulp64 x)) - x / ulp64 x) * ulp64 x"
    using u(1) by (simp add: round64_def field_simps)
  then have "\<bar>round64 x - x\<bar> = \<bar>of_int (round_even (x / ulp64 x)) - x / ulp64 x\<bar> * ulp64 x"
    using u(1) by (simp add: abs_mult)
  also have "\<dots> \<le> 1 / 2 * ulp64 x"
    using u(1) round_even_error[of "x / ulp64 x"] by (intro mult_right_mono) simp_all
  also have "\<dots> \<le> 1 / 2 * (1 / 2 ^ 52)"
    using u(2) by simp
  finally show ?thesis by simp
qed

lemma round64_nonneg:
  assumes "0 \<le> x" "x < 2"
  shows "0 \<le> round64 x"
proof -
  have u: "0 < ulp64 x" using assms by (intro ulp64_small) simp
  then have "0 \<le> x / ulp64 x" using assms(1) by simp
  then have "0 \<le> round_even (x / ulp64 x)" by (rule round_even_nonneg)
  then show ?thesis using u by (simp add: round64_def)
qed

lemma slip_update64_apply:
  "slip_update64 self st (index_to_position st (FrozenLake.columns self)) a t sa s0 a0 =
     (if s0 = st \<and> a0 = a then foldl row_step (t st a) (row_adds self st a [sa]) else t s0 a0)"
  by (rule ext)
    (simp add: slip_update64_def add_at64_def row_adds_def row_step_def cell_target_def Let_def)

lemma row_adds_Cons:
  "row_adds self st a (sa # sas) = row_adds self st a [sa] @ row_adds self st a sas"
  by (simp add: row_adds_def)

lemma populate_action64_fold:
  "foldl (slip_update64 self st (index_to_position st (FrozenLake.columns self)) a) t sas s0 a0 =
     (if s0 = st \<and> a0 = a then foldl row_step (t st a) (row_adds self st a sas) else t s0 a0)"
proof (induction sas arbitrary: t)
  case Nil
  then show ?case by (simp add: row_adds_def)
next
  case (Cons sa sas)
  let ?f = "slip_update64 self st (index_to_position st (FrozenLake.columns self)) a"
  have "foldl ?f t (sa # sas) s0 a0 = foldl ?f (?f t sa) sas s0 a0" by simp
  also have "\<dots> = (if s0 = st \<and> a0 = a
      then foldl row_step (?f t sa st a) (row_adds self st a sas) else ?f t sa s0 a0)"
    by (rule Cons.IH)
  also have "\<dots> = (if s0 = st \<and> a0 = a
      then foldl row_step (foldl row_step (t st a) (row_adds self st a [sa]))
             (row_adds self st a sas)
      else t s0 a0)"
    by (simp add: slip_update64_apply)
  also have "\<dots> = (if s0 = st \<and> a0 = a
      then foldl row_step (t st a) (row_adds self st a (sa # sas)) else t s0 a0)"
    by (simp add: row_adds_Cons[of self st a sa sas])
  finally show ?case .
qed

lemma populate_action64_apply:
  "populate_action64 self st (index_to_position st (FrozenLake.columns self)) t a s0 a0 =
     (if s0 = st \<and> a0 = a
      then foldl row_step (t st a) (row_adds self st a [0 .. n_actions self - 1])
      else t s0 a0)"
  by (simp add: populate_action64_def populate_action64_fold)

lemma populate_actions64_fold:
  assumes "distinct as"
  shows "foldl (populate_action64 self st (index_to_position st (FrozenLake.columns self))) t as
           s0 a0 =
         (if s0 = st \<and> a0 \<in> set as
          then foldl row_step (t st a0) (row_adds self st a0 [0 .. n_actions self - 1])
          else t s0 a0)"
  using assms
proof (induction as arbitrary: t)
  case Nil
  then show ?case by simp
next
  case (Cons a as)
  let ?g = "populate_action64 self st (index_to_position st (FrozenLake.columns self))"
  have d: "distinct as" "a \<notin> set as" using Cons.prems by simp_all
  have "foldl ?g t (a # as) s0 a0 = foldl ?g (?g t a) as s0 a0" by simp
  also have "\<dots> = (if s0 = st \<and> a0 \<in> set as
      then foldl row_step (?g t a st a0) (row_adds self st a0 [0 .. n_actions self - 1])
      else ?g t a s0 a0)"
    using d(1) by (rule Cons.IH)
  also have "\<dots> = (if s0 = st \<and> a0 \<in> set (a # as)
      then foldl row_step (t st a0) (row_adds self st a0 [0 .. n_actions self - 1])
      else t s0 a0)"
    using d(2) by (auto simp add: populate_action64_apply)
  finally show ?case .
qed

lemma populate_state64_other:
  "s0 \<noteq> st \<Longrightarrow> populate_state64 self t st s0 = t s0"
  by (rule ext)
    (simp add: populate_state64_def assign_all_actions_def populate_actions64_fold)

lemma populate_state64_terminal:
  "terminal_cell self st \<Longrightarrow> 0 \<le> a0 \<Longrightarrow> a0 < n_actions self \<Longrightarrow>
   populate_state64 self t st st a0 ns0 =
     (if ns0 = FrozenLake.absorbing_state self then 1 else t st a0 ns0)"
  by (simp add: populate_state64_def assign_all_actions_def)

lemma populate_state64_cell:
  "\<not> terminal_cell self st \<Longrightarrow> 0 \<le> a0 \<Longrightarrow> a0 < n_actions self \<Longrightarrow>
   populate_state64 self t st st a0 =
     foldl row_step (t st a0) (row_adds self st a0 [0 .. n_actions self - 1])"
  by (simp add: populate_state64_def populate_actions64_fold)

lemma populate_state64_row:
  assumes "s0 \<noteq> s"
  shows "populate_state64 self (populate_state64 self t s) s0 s0 = populate_state64 self t s0 s0"
proof -
  have "populate_state64 self t s s0 = t s0"
    using assms by (rule populate_state64_other)
  then show ?thesis
    by (intro ext)
      (simp add: populate_state64_def assign_all_actions_def populate_actions64_fold)
qed

lemma populate64_fold_notin:
  "s0 \<notin> set sts \<Longrightarrow> foldl (populate_state64 self) t sts s0 = t s0"
  by (induction sts arbitrary: t) (simp_all add: populate_state64_other)

lemma populate64_fold_in:
  "distinct sts \<Longrightarrow> s0 \<in> set sts \<Longrightarrow>
   foldl (populate_state64 self) t sts s0 = populate_state64 self t s0 s0"
proof (induction sts arbitrary: t)
  case Nil
  then show ?case by simp
next
  case (Cons s sts)
  show ?case
  proof (cases "s0 = s")
    case True
    with Cons.prems have "s0 \<notin> set sts" by simp
    then show ?thesis using True by (simp add: populate64_fold_notin)
  next
    case False
    with Cons.prems have "s0 \<in> set sts" "distinct sts" by simp_all
    then have "foldl (populate_state64 self) (populate_state64 self t s) sts s0 =
      populate_state64 self (populate_state64 self t s) s0 s0"
      by (rule Cons.IH[rotated])
    also have "\<dots> = populate_state64 self t s0 s0"
      using False by (rule populate_state64_row)
    finally show ?thesis by simp
  qed
qed

lemma FrozenLake_init64_fields:
  "n_states (FrozenLake_init64 lk sl ms s0 rs) = grid_size lk + 1"
  "n_actions (FrozenLake_init64 lk sl ms s0 rs) = 4"
  "lake (FrozenLake_init64 lk sl ms s0 rs) = lk"
  "FrozenLake.rows (FrozenLake_init64 lk sl ms s0 rs) = shape_rows lk"
  "FrozenLake.columns (FrozenLake_init64 lk sl ms s0 rs) = shape_columns lk"
  "slip (FrozenLake_init64 lk sl ms s0 rs) = sl"
  "FrozenLake.absorbing_state (FrozenLake_init64 lk sl ms s0 rs) = grid_size lk"
  by (simp_all add: FrozenLake_init64_def populate_probabilities64_def actions_def)

lemma slip_update64_p_tensor_update:
  "slip_update64 (self\<lparr>p_tensor := t'\<rparr>) = slip_update64 self"
  by (intro ext) (simp add: slip_update64_def Let_def)

lemma populate_action64_p_tensor_update:
  "populate_action64 (self\<lparr>p_tensor := t'\<rparr>) = populate_action64 self"
  by (intro ext) (simp add: populate_action64_def slip_update64_p_tensor_update)

lemma populate_state64_p_tensor_update:
  "populate_state64 (self\<lparr>p_tensor := t'\<rparr>) = populate_state64 self"
  by (intro ext)
    (simp add: populate_state64_def terminal_cell_def populate_action64_p_tensor_update)

lemma p_tensor_init64:
  "p_tensor (FrozenLake_init64 lk sl ms s0 rs) =
     foldl (populate_state64 (FrozenLake_init64 lk sl ms s0 rs)) (\<lambda>s a ns. 0) [0 .. grid_size lk]"
  apply (simp only: FrozenLake_init64_def populate_probabilities64_def
      populate_state64_p_tensor_update)
  apply simp
  done

lemma terminal_cell_init64:
  "terminal_cell (FrozenLake_init64 lk sl ms s0 rs) s =
     terminal_cell (FrozenLake_init lk sl ms s0 rs) s"
  by (simp add: terminal_cell_def FrozenLake_init64_fields FrozenLake_init_fields)

lemma cell_target_init64:
  "cell_target (FrozenLake_init64 lk sl ms s0 rs) s a = reached_cell lk s a"
  by (simp add: cell_target_def reached_cell_def move_target_def index_to_position_def
      position_to_index_def FrozenLake_init64_fields Let_def)

lemma p_tensor64_terminal:
  assumes "terminal_cell (FrozenLake_init64 lk sl ms s0 rs) s"
    and "0 \<le> s" "s \<le> grid_size lk" "0 \<le> a" "a < 4"
  shows "p_tensor (FrozenLake_init64 lk sl ms s0 rs) s a ns = (if ns = grid_size lk then 1 else 0)"
  using assms
  by (simp add: p_tensor_init64 populate64_fold_in populate_state64_terminal
      FrozenLake_init64_fields)

lemma p_tensor64_cell:
  assumes "\<not> terminal_cell (FrozenLake_init64 lk sl ms s0 rs) s"
    and "0 \<le> s" "s \<le> grid_size lk" "0 \<le> a" "a < 4"
  shows "p_tensor (FrozenLake_init64 lk sl ms s0 rs) s a =
           foldl row_step (\<lambda>ns. 0) (row_adds (FrozenLake_init64 lk sl ms s0 rs) s a [0, 1, 2, 3])"
  using assms
  by (simp add: p_tensor_init64 populate64_fold_in populate_state64_cell
      FrozenLake_init64_fields upto_0_3)

lemma row_adds_init64:
  assumes "0 \<le> a" "a < 4"
  shows "set (map fst (row_adds (FrozenLake_init64 lk sl ms s0 rs) s a [0, 1, 2, 3])) \<subseteq>
           {reached_cell lk s 0, reached_cell lk s 1, reached_cell lk s 2, reached_cell lk s 3}"
    and "set (map snd (row_adds (FrozenLake_init64 lk sl ms s0 rs) s a [0, 1, 2, 3])) \<subseteq>
           {round64 (sl / 4), round64 (1 - sl)}"
    and "sum_list (map snd (row_adds (FrozenLake_init64 lk sl ms s0 rs) s a [0, 1, 2, 3])) =
           4 * round64 (sl / 4) + round64 (1 - sl)"
    and "length (row_adds (FrozenLake_init64 lk sl ms s0 rs) s a [0, 1, 2, 3]) = 5"
proof -
  from assms have "a = 0 \<or> a = 1 \<or> a = 2 \<or> a = 3" by arith
  then show
    "set (map fst (row_adds (FrozenLake_init64 lk sl ms s0 rs) s a [0, 1, 2, 3])) \<subseteq>
           {reached_cell lk s 0, reached_cell lk s 1, reached_cell lk s 2, reached_cell lk s 3}"
    "set (map snd (row_adds (FrozenLake_init64 lk sl ms s0 rs) s a [0, 1, 2, 3])) \<subseteq>
           {round64 (sl / 4), round64 (1 - sl)}"
    "sum_list (map snd (row_adds (FrozenLake_init64 lk sl ms s0 rs) s a [0, 1, 2, 3])) =
           4 * round64 (sl / 4) + round64 (1 - sl)"
    "length (row_adds (FrozenLake_init64 lk sl ms s0 rs) s a [0, 1, 2, 3]) = 5"
    by (auto simp add: row_adds_def cell_target_init64 FrozenLake_init64_fields)
qed

lemma row_sum_update:
  assumes "0 \<le> k" "k \<le> g"
  shows "(\<Sum>ns\<leftarrow>[0 .. g]. (r(k := v)) ns) = (\<Sum>ns\<leftarrow>[0 .. g]. r ns) - r k + (v::real)"
proof -
  have "(\<Sum>ns\<leftarrow>[0 .. g]. (r(k := v)) ns) =
      (\<Sum>ns\<leftarrow>[0 .. g]. r ns + (if k = ns then v - r k else 0))"
    by (intro arg_cong[where f = sum_list] map_cong) auto
  also have "\<dots> = (\<Sum>ns\<leftarrow>[0 .. g]. r ns) + (\<Sum>ns\<leftarrow>[0 .. g]. if k = ns then v - r k else 0)"
    by (rule sum_list_addf)
  also have "(\<Sum>ns\<leftarrow>[0 .. g]. if k = ns then v - r k else 0) = v - r k"
    using assms by (rule sum_upto_delta)
  finally show ?thesis by simp
qed

lemma row_fold_error:
  assumes "1 / 2 ^ 53 \<le> eps"
    and "\<forall>kv\<in>set adds. 0 \<le> fst kv \<and> fst kv \<le> g \<and> 0 \<le> snd kv"
    and "\<forall>ns. 0 \<le> r ns \<and> r ns \<le> m + real j * eps"
    and "\<bar>(\<Sum>ns\<leftarrow>[0 .. g]. r ns) - m\<bar> \<le> real j * eps"
    and "m + sum_list (map snd adds) + real (j + length adds) * eps < 2"
  shows "\<bar>(\<Sum>ns\<leftarrow>[0 .. g]. foldl row_step r adds ns) - (m + sum_list (map snd adds))\<bar>
           \<le> real (j + length adds) * eps"
  using assms(2-)
proof (induction adds arbitrary: r m j)
  case Nil
  then show ?case by simp
next
  case (Cons kv adds)
  have eps: "0 \<le> eps" using assms(1) by (rule order_trans[rotated]) simp
  obtain k v where kv: "kv = (k, v)" by (cases kv)
  have k: "0 \<le> k" "k \<le> g" and v: "0 \<le> v"
    using Cons.prems(1) kv by simp_all
  have rest: "0 \<le> sum_list (map snd adds)"
    using Cons.prems(1) by (intro sum_list_nonneg) auto
  have len: "real (j + length (kv # adds)) * eps = real j * eps + eps + real (length adds) * eps"
    by (simp add: algebra_simps)
  have len0: "0 \<le> real (length adds) * eps" using eps by simp
  define x where "x = r k + v"
  have rk: "0 \<le> r k" "r k \<le> m + real j * eps" using Cons.prems(2) by simp_all
  have x0: "0 \<le> x" using rk(1) v by (simp add: x_def)
  have total: "m + (v + sum_list (map snd adds)) + (real j * eps + eps + real (length adds) * eps) < 2"
    using Cons.prems(4) unfolding len by (simp add: kv)
  have x2: "x < 2"
    using rk(2) rest len0 eps total unfolding x_def by linarith
  have err: "\<bar>round64 x - x\<bar> \<le> eps"
    using round64_error[of x] x0 x2 assms(1) by simp
  have nonneg: "0 \<le> round64 x" using x0 x2 by (rule round64_nonneg)
  define r1 where "r1 = r(k := round64 x)"
  have step: "foldl row_step r (kv # adds) = foldl row_step r1 adds"
    by (simp add: row_step_def kv r1_def x_def)
  have suc: "real (Suc j) * eps = real j * eps + eps" by (simp add: algebra_simps)
  have a: "\<forall>kv\<in>set adds. 0 \<le> fst kv \<and> fst kv \<le> g \<and> 0 \<le> snd kv"
    using Cons.prems(1) by simp
  have b: "\<forall>ns. 0 \<le> r1 ns \<and> r1 ns \<le> (m + v) + real (Suc j) * eps"
  proof
    fix ns
    show "0 \<le> r1 ns \<and> r1 ns \<le> (m + v) + real (Suc j) * eps"
    proof (cases "ns = k")
      case True
      have "round64 x \<le> (m + v) + real (Suc j) * eps"
        using err rk(2) unfolding suc x_def by linarith
      then show ?thesis using True nonneg by (simp add: r1_def)
    next
      case False
      have "r ns \<le> m + real j * eps" "0 \<le> r ns" using Cons.prems(2) by simp_all
      then have "0 \<le> r ns \<and> r ns \<le> (m + v) + real (Suc j) * eps"
        using v eps unfolding suc by linarith
      then show ?thesis using False by (simp add: r1_def)
    qed
  qed
  have "(\<Sum>ns\<leftarrow>[0 .. g]. r1 ns) = (\<Sum>ns\<leftarrow>[0 .. g]. r ns) - r k + round64 x"
    unfolding r1_def using k by (rule row_sum_update)
  then have c: "\<bar>(\<Sum>ns\<leftarrow>[0 .. g]. r1 ns) - (m + v)\<bar> \<le> real (Suc j) * eps"
    using Cons.prems(3) err unfolding suc x_def by linarith
  have "real (Suc j + length adds) * eps = real j * eps + eps + real (length adds) * eps"
    by (simp add: algebra_simps)
  then have d: "(m + v) + sum_list (map snd adds) + real (Suc j + length adds) * eps < 2"
    using total by linarith
  have "\<bar>(\<Sum>ns\<leftarrow>[0 .. g]. foldl row_step r1 adds ns) - ((m + v) + sum_list (map snd adds))\<bar>
           \<le> real (Suc j + length adds) * eps"
    using a b c d by (rule Cons.IH)
  then show ?case
    unfolding step by (simp add: kv add.assoc)
qed

lemma rounded_masses:
  assumes "0 \<le> sl" "sl \<le> 1"
  shows "0 \<le> round64 (sl / 4)" "0 \<le> round64 (1 - sl)"
    "\<bar>4 * round64 (sl / 4) + round64 (1 - sl) - 1\<bar> \<le> 5 / 2 ^ 53"
proof -
  have c: "\<bar>round64 (sl / 4) - sl / 4\<bar> \<le> 1 / 2 ^ 53"
    using assms by (intro round64_error) simp
  have d: "\<bar>round64 (1 - sl) - (1 - sl)\<bar> \<le> 1 / 2 ^ 53"
    using assms by (intro round64_error) simp
  show "0 \<le> round64 (sl / 4)" using assms by (intro round64_nonneg) simp_all
  show "0 \<le> round64 (1 - sl)" using assms by (intro round64_nonneg) simp_all
  show "\<bar>4 * round64 (sl / 4) + round64 (1 - sl) - 1\<bar> \<le> 5 / 2 ^ 53"
    using c d by linarith
qed

lemma FrozenLake64_row_sum:
  assumes "0 \<le> sl" "sl \<le> 1" "0 \<le> s" "s \<le> grid_size lk" "0 \<le> a" "a < 4"
  shows "\<bar>sum_list (map (p_tensor (FrozenLake_init64 lk sl ms s0 rs) s a) [0 .. grid_size lk]) - 1\<bar>
           \<le> 10 / 2 ^ 53"
proof (cases "terminal_cell (FrozenLake_init64 lk sl ms s0 rs) s")
  case True
  have eq: "map (p_tensor (FrozenLake_init64 lk sl ms s0 rs) s a) [0 .. grid_size lk] =
      map (\<lambda>ns. if grid_size lk = ns then 1 else 0) [0 .. grid_size lk]"
    using True assms by (auto simp add: p_tensor64_terminal)
  have "0 \<le> grid_size lk" using assms by simp
  then have "(\<Sum>ns\<leftarrow>[0 .. grid_size lk]. if grid_size lk = ns then 1 else (0::real)) = 1"
    by (simp add: sum_upto_delta)
  then show ?thesis by (simp only: eq) simp
next
  case False
  let ?adds = "row_adds (FrozenLake_init64 lk sl ms s0 rs) s a [0, 1, 2, 3]"
  let ?c = "round64 (sl / 4)" and ?d = "round64 (1 - sl)"
  from False have lt: "s < grid_size lk"
    using assms by (auto simp add: terminal_cell_def FrozenLake_init64_fields)
  note ra = row_adds_init64[OF assms(5,6), of lk sl ms s0 rs s]
  note rm = rounded_masses[OF assms(1,2)]
  have tgt: "\<forall>kv\<in>set ?adds. 0 \<le> fst kv \<and> fst kv \<le> grid_size lk \<and> 0 \<le> snd kv"
  proof
    fix kv assume kv: "kv \<in> set ?adds"
    then have "fst kv \<in> set (map fst ?adds)" "snd kv \<in> set (map snd ?adds)" by simp_all
    then have f: "fst kv \<in> {reached_cell lk s 0, reached_cell lk s 1, reached_cell lk s 2,
        reached_cell lk s 3}" and sn: "snd kv \<in> {?c, ?d}"
      using ra(1,2) by blast+
    have "0 \<le> fst kv \<and> fst kv < grid_size lk"
      using f reached_cell_range[OF assms(3) lt] by auto
    moreover have "0 \<le> snd kv" using sn rm(1,2) by auto
    ultimately show "0 \<le> fst kv \<and> fst kv \<le> grid_size lk \<and> 0 \<le> snd kv" by simp
  qed
  define eps where "eps = (1::real) / 2 ^ 53"
  have e: "1 / 2 ^ 53 \<le> eps" by (simp add: eps_def)
  have rm3: "\<bar>4 * ?c + ?d - 1\<bar> \<le> 5 * eps" using rm(3) by (simp add: eps_def)
  have small: "10 * eps < 1" by (simp add: eps_def)
  have "\<bar>(\<Sum>ns\<leftarrow>[0 .. grid_size lk]. foldl row_step (\<lambda>ns. 0) ?adds ns) -
        (0 + sum_list (map snd ?adds))\<bar> \<le> real (0 + length ?adds) * eps"
  proof (rule row_fold_error[OF e tgt])
    show "\<forall>ns. 0 \<le> (0::real) \<and> (0::real) \<le> 0 + real 0 * eps" by simp
    show "\<bar>(\<Sum>ns\<leftarrow>[0 .. grid_size lk]. 0) - (0::real)\<bar> \<le> real 0 * eps" by simp
    show "0 + sum_list (map snd ?adds) + real (0 + length ?adds) * eps < 2"
      using rm3 small unfolding ra(3,4) by simp
  qed
  then have "\<bar>(\<Sum>ns\<leftarrow>[0 .. grid_size lk]. foldl row_step (\<lambda>ns. 0) ?adds ns) - (4 * ?c + ?d)\<bar>
      \<le> 5 * eps"
    unfolding ra(3,4) by simp
  then have "\<bar>(\<Sum>ns\<leftarrow>[0 .. grid_size lk]. foldl row_step (\<lambda>ns. 0) ?adds ns) - 1\<bar> \<le> 10 * eps"
    using rm3 by linarith
  then have "\<bar>(\<Sum>ns\<leftarrow>[0 .. grid_size lk]. foldl row_step (\<lambda>ns. 0) ?adds ns) - 1\<bar> \<le> 10 / 2 ^ 53"
    by (simp add: eps_def)
  then show ?thesis
    by (simp only: p_tensor64_cell[OF False assms(3,4,5,6)])
qed

lemma binade_neg:
  "1 / 2 ^ m \<le> x \<Longrightarrow> x < 2 / 2 ^ m \<Longrightarrow> m \<le> n \<Longrightarrow> binade n x = - int m"
proof (induction m arbitrary: x n)
  case 0
  then show ?case by (cases n) simp_all
next
  case (Suc m)
  then obtain n' where n: "n = Suc n'" "m \<le> n'" by (cases n) simp_all
  have pos: "(0::real) < 2 ^ m" by simp
  from Suc.prems(2) have x1: "x < 1 / 2 ^ m" by simp
  have "1 / 2 ^ m \<le> (1::real)" by (simp add: divide_le_eq_1)
  with x1 have lt1: "x < 1" by linarith
  have a: "1 / 2 ^ m \<le> x * 2" using Suc.prems(1) pos by (simp add: field_simps)
  have b: "x * 2 < 2 / 2 ^ m" using x1 by simp
  have "binade n' (x * 2) = - int m" using a b n(2) by (rule Suc.IH)
  then show ?case using lt1 n(1) by simp
qed

lemma round64_small:
  assumes "1 / 2 ^ m \<le> \<bar>x\<bar>" "\<bar>x\<bar> < 2 / 2 ^ m" "m \<le> 1022"
  shows "round64 x = of_int (round_even (x * 2 ^ (m + 52))) / 2 ^ (m + 52)"
proof -
  have "binade 1100 \<bar>x\<bar> = - int m"
    using assms by (intro binade_neg) simp_all
  then have "ulp64 x = 1 / 2 ^ (m + 52)"
    using assms(3) by (simp add: ulp64_def Let_def nat_add_distrib)
  then show ?thesis by (simp add: round64_def)
qed

lemma round64_three_tenths: "round64 (3 / 10) = 5404319552844595 / 18014398509481984"
  by (subst round64_small[where m = 2]) (simp_all add: round_even_def Let_def)

lemma upto_0_16: "[0 .. (16::int)] = [0, 1, 2, 3, 4, 5, 6, 7, 8, 9, 10, 11, 12, 13, 14, 15, 16]"
  by (simp add: upto.simps)

lemma FrozenLake64_p_in_range:
  assumes "0 \<le> s" "s \<le> grid_size lk" "0 \<le> a" "a < 4" "0 \<le> ns" "ns \<le> grid_size lk"
  shows "FrozenLake_p (FrozenLake_init64 lk sl ms s0 rs) ns s a =
           Inr (p_tensor (FrozenLake_init64 lk sl ms s0 rs) s a ns)"
  using assms
  by (simp add: FrozenLake_p_def p_tensor_at_def np_index_in_range FrozenLake_init64_fields)

lemma FrozenLake64_row_eq:
  assumes "0 \<le> s" "s \<le> grid_size lk" "0 \<le> a" "a < 4"
  shows "FrozenLake_row (FrozenLake_init64 lk sl ms s0 rs) s a =
           map Inr (map (p_tensor (FrozenLake_init64 lk sl ms s0 rs) s a) [0 .. grid_size lk])"
  using assms
  by (simp add: FrozenLake_row_def FrozenLake_init64_fields FrozenLake64_p_in_range)

lemma lake4_row_rounded:
  fixes F :: "unit FrozenLake"
  defines "F \<equiv> FrozenLake_init64 lake4 (round64 (3 / 10)) 30 0 ()"
  shows "p_tensor F 0 0 0 = 3828059683264921 / 4503599627370496"
    and "p_tensor F 0 0 1 = 5404319552844595 / 72057594037927936"
    and "p_tensor F 0 0 4 = 5404319552844595 / 72057594037927936"
    and "sum_list (map (p_tensor F 0 0) [0 .. 16]) = 1 - 5 / 2 ^ 55"
proof -
  define q :: real where "q = 5404319552844595 / 18014398509481984"
  define C :: real where "C = 5404319552844595 / 72057594037927936"
  define D :: real where "D = 3152519739159347 / 4503599627370496"
  define X1 :: real where "X1 = 1745144855606067 / 2251799813685248"
  define X2 :: real where "X2 = 3828059683264921 / 4503599627370496"
  have sl: "round64 (3 / 10) = q" by (simp add: round64_three_tenths q_def)
  have cq: "round64 (q / 4) = C"
    unfolding q_def C_def
    by (subst round64_small[where m = 4]) (simp_all add: round_even_def Let_def)
  have dq: "round64 (1 - q) = D"
    unfolding q_def D_def
    by (subst round64_small[where m = 1]) (simp_all add: round_even_def Let_def)
  have cc: "round64 C = C"
    unfolding C_def
    by (subst round64_small[where m = 4]) (simp_all add: round_even_def Let_def)
  have x1: "round64 (C + D) = X1"
    unfolding C_def D_def X1_def
    by (subst round64_small[where m = 1]) (simp_all add: round_even_def Let_def)
  have x2: "round64 (X1 + C) = X2"
    unfolding C_def X1_def X2_def
    by (subst round64_small[where m = 1]) (simp_all add: round_even_def Let_def)
  have cell: "grid_at lake4 (0 div shape_columns lake4) (0 mod shape_columns lake4) = Inr ''&''"
    unfolding grid_at_def np_index_def shape_lake4 by (simp add: lake4_def)
  have nt: "\<not> terminal_cell F 0"
    unfolding F_def terminal_cell_init64
    by (rule not_terminal_cell[OF _ _ cell]) (simp_all add: shape_lake4)
  have rc: "reached_cell lake4 0 0 = 0" "reached_cell lake4 0 1 = 4"
    "reached_cell lake4 0 2 = 0" "reached_cell lake4 0 3 = 1"
    unfolding reached_cell_def shape_lake4 by (simp_all add: actions_def)
  have adds: "row_adds F 0 0 [0, 1, 2, 3] = [(0, C), (0, D), (4, C), (0, C), (1, C)]"
    unfolding F_def
    by (simp add: row_adds_def cell_target_init64 rc FrozenLake_init64_fields sl cq dq)
  have row: "p_tensor F 0 0 = foldl row_step (\<lambda>ns. 0) [(0, C), (0, D), (4, C), (0, C), (1, C)]"
    unfolding adds[symmetric] F_def
    by (rule p_tensor64_cell[OF nt[unfolded F_def]]) (simp_all add: shape_lake4)
  show "p_tensor F 0 0 0 = 3828059683264921 / 4503599627370496"
    unfolding row by (simp add: row_step_def cc x1 x2) (simp add: X2_def)
  show "p_tensor F 0 0 1 = 5404319552844595 / 72057594037927936"
    unfolding row by (simp add: row_step_def cc x1 x2) (simp add: C_def)
  show "p_tensor F 0 0 4 = 5404319552844595 / 72057594037927936"
    unfolding row by (simp add: row_step_def cc x1 x2) (simp add: C_def)
  have "sum_list (map (p_tensor F 0 0) [0 .. 16]) = X2 + C + C"
    unfolding row upto_0_16 by (simp add: row_step_def cc x1 x2)
  then show "sum_list (map (p_tensor F 0 0) [0 .. 16]) = 1 - 5 / 2 ^ 55"
    by (simp add: X2_def C_def)
qed

subsection \<open>The absorbing state\<close>

lemma terminal_cell_absorbing:
  "terminal_cell (FrozenLake_init lk sl ms s0 rs) (grid_size lk)"
  by (simp add: terminal_cell_def FrozenLake_init_fields)

lemma grid_size_nonneg: "0 \<le> grid_size g"
  by (simp add: grid_size_def shape_rows_def shape_columns_def split: list.splits)

lemma FrozenLake_p_absorbing:
  assumes "0 \<le> a" "a < 4" "0 \<le> ns" "ns \<le> grid_size lk"
  shows "FrozenLake_p (FrozenLake_init lk sl ms s0 rs) ns (grid_size lk) a =
           Inr (if ns = grid_size lk then 1 else 0)"
  using assms grid_size_nonneg[of lk]
  by (simp add: FrozenLake_p_in_range p_tensor_terminal terminal_cell_absorbing)

lemma FrozenLake_r_absorbing:
  assumes "0 \<le> a" "a < 4" "0 \<le> ns" "ns \<le> grid_size lk"
  shows "FrozenLake_r (FrozenLake_init lk sl ms s0 rs) ns (grid_size lk) a = Inr 0"
  using assms grid_size_nonneg[of lk]
  by (simp add: FrozenLake_r_def p_tensor_at_def np_index_in_range FrozenLake_init_fields)

lemma GridWorld_r_absorbing:
  assumes "0 \<le> a" "a < 4"
  shows "GridWorld_r (GridWorld_init gr ms s0 rs) ns (grid_size gr) a = Inr 0"
  using assms
  by (simp add: GridWorld_r_def GridWorld_p_absorbing GridWorld_init_fields)

subsection \<open>The transition kernel\<close>



text \<open>
  C2, as stated, fails for the slippery grid: the entries are float64 numbers built by
  rounded additions. For the lake of \<open>run_env.py\<close> with slip \<open>0.3\<close>, state 0 and
  action 0, the loop stores \<open>0.8499999999999999\<close> for next state 0 and \<open>0.075\<close> for
  next states 1 and 4, and the row sums to \<open>1 - 5 / 2^55\<close>.
\<close>

theorem transition_rows_rounded_counterexample:
  "round64 (3 / 10) = 5404319552844595 / 18014398509481984 \<and>
   FrozenLake_p (FrozenLake_init64 lake4 (round64 (3 / 10)) 30 0 ()) 0 0 0 =
     Inr (3828059683264921 / 4503599627370496) \<and>
   FrozenLake_p (FrozenLake_init64 lake4 (round64 (3 / 10)) 30 0 ()) 1 0 0 =
     Inr (5404319552844595 / 72057594037927936) \<and>
   FrozenLake_p (FrozenLake_init64 lake4 (round64 (3 / 10)) 30 0 ()) 4 0 0 =
     Inr (5404319552844595 / 72057594037927936) \<and>
   (\<exists>ps. FrozenLake_row (FrozenLake_init64 lake4 (round64 (3 / 10)) 30 0 ()) 0 0 = map Inr ps \<and>
         sum_list ps = 1 - 5 / 2 ^ 55)"
proof -
  let ?F = "FrozenLake_init64 lake4 (round64 (3 / 10)) 30 0 ()"
  have p: "FrozenLake_p ?F ns 0 0 = Inr (p_tensor ?F 0 0 ns)" if "0 \<le> ns" "ns \<le> 16" for ns
    using that by (intro FrozenLake64_p_in_range) (simp_all add: shape_lake4)
  have row: "FrozenLake_row ?F 0 0 = map Inr (map (p_tensor ?F 0 0) [0 .. 16])"
    using FrozenLake64_row_eq[of 0 lake4 0 "round64 (3 / 10)" 30 0 "()"]
    by (simp add: shape_lake4)
  have e: "\<exists>ps. FrozenLake_row ?F 0 0 = map Inr ps \<and> sum_list ps = 1 - 5 / 2 ^ 55"
    using row lake4_row_rounded(4) by blast
  have a: "FrozenLake_p ?F 0 0 0 = Inr (3828059683264921 / 4503599627370496)"
    by (simp only: p[of 0, simplified] lake4_row_rounded(1))
  have b: "FrozenLake_p ?F 1 0 0 = Inr (5404319552844595 / 72057594037927936)"
    by (simp only: p[of 1, simplified] lake4_row_rounded(2))
  have c: "FrozenLake_p ?F 4 0 0 = Inr (5404319552844595 / 72057594037927936)"
    by (simp only: p[of 4, simplified] lake4_row_rounded(3))
  show ?thesis
    by (intro conjI round64_three_tenths a b c e)
qed

text \<open>
  C2, amended. In the reward grid, for every state and every action, the probabilities of
  the next states \<open>0, ..., n_states - 1\<close> are all defined and sum to exactly 1. In the
  slippery grid with a slip probability in \<open>[0, 1]\<close>, they are all defined and the
  float64 entries sum, in exact arithmetic, to 1 within \<open>10^-9\<close>.
\<close>

theorem transition_rows_sum_to_one_rounded:
  assumes "wf_grid lk" and "wf_grid gr"
    and "0 \<le> sl" and "sl \<le> 1"
    and "0 \<le> s" and "s < n_states (FrozenLake_init64 lk sl ms s0 rs)"
    and "0 \<le> s2" and "s2 < n_states (GridWorld_init gr ms2 s02 rs2)"
    and "0 \<le> a" and "a < 4"
  shows "(\<exists>ps. FrozenLake_row (FrozenLake_init64 lk sl ms s0 rs) s a = map Inr ps \<and>
               \<bar>sum_list ps - 1\<bar> \<le> 1 / 10 ^ 9) \<and>
         (\<exists>qs. GridWorld_row (GridWorld_init gr ms2 s02 rs2) s2 a = map Inr qs \<and>
               sum_list qs = 1)"
proof -
  from assms have s: "s \<le> grid_size lk" and s2: "s2 \<le> grid_size gr"
    by (simp_all add: FrozenLake_init64_fields GridWorld_init_fields)
  have "FrozenLake_row (FrozenLake_init64 lk sl ms s0 rs) s a =
          map Inr (map (p_tensor (FrozenLake_init64 lk sl ms s0 rs) s a) [0 .. grid_size lk])"
    using assms(5) s assms(9,10) by (rule FrozenLake64_row_eq)
  moreover have
    "\<bar>sum_list (map (p_tensor (FrozenLake_init64 lk sl ms s0 rs) s a) [0 .. grid_size lk]) - 1\<bar>
       \<le> 10 / 2 ^ 53"
    using assms(3,4,5) s assms(9,10) by (rule FrozenLake64_row_sum)
  moreover have "(10::real) / 2 ^ 53 \<le> 1 / 10 ^ 9" by simp
  ultimately have "FrozenLake_row (FrozenLake_init64 lk sl ms s0 rs) s a =
          map Inr (map (p_tensor (FrozenLake_init64 lk sl ms s0 rs) s a) [0 .. grid_size lk]) \<and>
      \<bar>sum_list (map (p_tensor (FrozenLake_init64 lk sl ms s0 rs) s a) [0 .. grid_size lk]) - 1\<bar>
        \<le> 1 / 10 ^ 9"
    by linarith
  then have "\<exists>ps. FrozenLake_row (FrozenLake_init64 lk sl ms s0 rs) s a = map Inr ps \<and>
               \<bar>sum_list ps - 1\<bar> \<le> 1 / 10 ^ 9"
    by (rule exI)
  moreover have "\<exists>qs. GridWorld_row (GridWorld_init gr ms2 s02 rs2) s2 a = map Inr qs \<and>
               sum_list qs = 1"
    using assms(7) s2 assms(9,10) by (rule GridWorld_row_sum)
  ultimately show ?thesis by blast
qed

theorem transition_rows_sum_to_one_rounded_witness:
  "wf_grid lake4 \<and> wf_grid grid4 \<and>
   (\<exists>ps. FrozenLake_row (FrozenLake_init64 lake4 (round64 (3 / 10)) 30 0 ()) 0 0 = map Inr ps \<and>
         \<bar>sum_list ps - 1\<bar> \<le> 1 / 10 ^ 9) \<and>
   (\<exists>qs. GridWorld_row (GridWorld_init grid4 30 0 ()) 16 0 = map Inr qs \<and> sum_list qs = 1)"
proof -
  have h: "0 \<le> round64 (3 / 10)" "round64 (3 / 10) \<le> 1"
    by (simp_all add: round64_three_tenths)
  show ?thesis
    using transition_rows_sum_to_one_rounded
      [OF wf_lake4 wf_grid4 h, of 0 30 0 "()" 16 30 0 "()" 0]
    by (simp add: wf_lake4 wf_grid4 FrozenLake_init64_fields GridWorld_init_fields shape_lake4
        shape_grid4)
qed

text \<open>
  C3. In both environments the absorbing state is the state \<open>n_states - 1\<close>; from it,
  under every action, the probability of the absorbing state itself is 1 and that of every
  other state is 0, and the reward of every transition out of it is 0.
\<close>

theorem absorbing_state_loops:
  assumes "wf_grid lk" and "wf_grid gr"
    and "fl = FrozenLake_init lk sl ms s0 rs" and "gw = GridWorld_init gr ms2 s02 rs2"
    and "0 \<le> a" and "a < 4"
    and "0 \<le> ns" and "ns < n_states fl"
  shows "FrozenLake.absorbing_state fl = n_states fl - 1 \<and>
         FrozenLake_p fl ns (FrozenLake.absorbing_state fl) a =
           Inr (if ns = FrozenLake.absorbing_state fl then 1 else 0) \<and>
         FrozenLake_r fl ns (FrozenLake.absorbing_state fl) a = Inr 0 \<and>
         GridWorld.absorbing_state gw = n_states gw - 1 \<and>
         GridWorld_p gw ns2 (GridWorld.absorbing_state gw) a =
           Inr (if ns2 = GridWorld.absorbing_state gw then 1 else 0) \<and>
         GridWorld_r gw ns2 (GridWorld.absorbing_state gw) a = Inr 0"
proof -
  from assms have ns: "ns \<le> grid_size lk"
    by (simp add: FrozenLake_init_fields)
  show ?thesis
    unfolding assms(3,4)
    using FrozenLake_p_absorbing[OF assms(5,6,7) ns, of sl ms s0 rs]
      FrozenLake_r_absorbing[OF assms(5,6,7) ns, of sl ms s0 rs]
      GridWorld_p_absorbing[OF assms(5,6), of gr ms2 s02 rs2 ns2]
      GridWorld_r_absorbing[OF assms(5,6), of gr ms2 s02 rs2 ns2]
    by (simp add: FrozenLake_init_fields GridWorld_init_fields)
qed

theorem absorbing_state_loops_witness:
  "wf_grid lake4 \<and> wf_grid grid4 \<and>
   FrozenLake_p (FrozenLake_init lake4 (1 / 10) 30 0 ()) 16 16 2 = Inr 1 \<and>
   FrozenLake_p (FrozenLake_init lake4 (1 / 10) 30 0 ()) 3 16 2 = Inr 0 \<and>
   FrozenLake_r (FrozenLake_init lake4 (1 / 10) 30 0 ()) 16 16 2 = Inr 0 \<and>
   GridWorld_p (GridWorld_init grid4 30 0 ()) 16 16 2 = Inr 1 \<and>
   GridWorld_p (GridWorld_init grid4 30 0 ()) 5 16 2 = Inr 0 \<and>
   GridWorld_r (GridWorld_init grid4 30 0 ()) 16 16 2 = Inr 0"
  using absorbing_state_loops [OF wf_lake4 wf_grid4 refl refl, of 2 16 "1 / 10" 30 0 "()" 30 0 "()" 16]
    absorbing_state_loops [OF wf_lake4 wf_grid4 refl refl, of 2 3 "1 / 10" 30 0 "()" 30 0 "()" 5]
  by (simp add: wf_lake4 wf_grid4 FrozenLake_init_fields GridWorld_init_fields shape_lake4
      shape_grid4)

subsection \<open>Taking a step\<close>

text \<open>
  C4. For a valid action, \<open>step\<close> adds one to the step counter, makes the drawn next
  state the current state and returns it with the drawn reward; the base class reports
  \<open>done\<close> exactly when the incremented counter has reached \<open>max_steps\<close>, and both
  concrete environments exactly when it has or the new state is the absorbing state.
\<close>

theorem step_advances:
  fixes draw :: "('r, 'w) draw"
    and e :: "('r, 'm) Environment_scheme"
    and fl :: "('r, 'f) FrozenLake_scheme"
    and gw :: "('r, 'g) GridWorld_scheme"
  assumes "0 \<le> a" and "a < n_actions e" and "a < n_actions fl" and "a < n_actions gw"
  shows "step draw e a =
           (case draw (random_state e) (state e) a of
              ((ns, rw), rs) \<Rightarrow>
                (Inr (ns, rw, max_steps e \<le> n_steps e + 1),
                 e\<lparr>n_steps := n_steps e + 1, state := ns, random_state := rs\<rparr>)) \<and>
         FrozenLake_step draw fl a =
           (case draw (random_state fl) (state fl) a of
              ((ns, rw), rs) \<Rightarrow>
                (Inr (ns, rw,
                   max_steps fl \<le> n_steps fl + 1 \<or> ns = FrozenLake.absorbing_state fl),
                 fl\<lparr>n_steps := n_steps fl + 1, state := ns, random_state := rs\<rparr>)) \<and>
         GridWorld_step draw gw a =
           (case draw (random_state gw) (state gw) a of
              ((ns, rw), rs) \<Rightarrow>
                (Inr (ns, rw,
                   max_steps gw \<le> n_steps gw + 1 \<or> ns = GridWorld.absorbing_state gw),
                 gw\<lparr>n_steps := n_steps gw + 1, state := ns, random_state := rs\<rparr>))"
  using assms
  by (auto simp add: step_def FrozenLake_step_def GridWorld_step_def Let_def split: prod.splits)

theorem step_advances_witness:
  "fst (step next_draw (GridWorld_init grid4 30 14 ()) 1) = Inr (15, 0, False) \<and>
   fst (FrozenLake_step next_draw (FrozenLake_init lake4 0 30 15 ()) 1) = Inr (16, 0, True) \<and>
   n_steps (snd (FrozenLake_step next_draw (FrozenLake_init lake4 0 30 15 ()) 1)) = 1 \<and>
   state (snd (FrozenLake_step next_draw (FrozenLake_init lake4 0 30 15 ()) 1)) = 16 \<and>
   fst (GridWorld_step next_draw (GridWorld_init grid4 1 3 ()) 1) = Inr (4, 0, True)"
  using step_advances [of 1 "GridWorld_init grid4 30 14 ()" "FrozenLake_init lake4 0 30 15 ()"
      "GridWorld_init grid4 1 3 ()" next_draw]
  by (simp add: FrozenLake_init_fields GridWorld_init_fields shape_lake4 shape_grid4
      next_draw_def)

text \<open>
  C5. \<open>step\<close> raises the invalid-action error exactly when the action is outside
  \<open>[0, n_actions)\<close>, and returns a triple of next state, reward and \<open>done\<close> exactly
  when the action is inside; so do the \<open>step\<close> methods of both concrete environments.
\<close>

theorem step_invalid_action_iff:
  fixes draw :: "('r, 'w) draw"
    and e :: "('r, 'm) Environment_scheme"
    and fl :: "('r, 'f) FrozenLake_scheme"
    and gw :: "('r, 'g) GridWorld_scheme"
  shows "(fst (step draw e a) = Inl InvalidAction) = (a < 0 \<or> n_actions e \<le> a) \<and>
         (\<exists>ns rw d. fst (step draw e a) = Inr (ns, rw, d)) = (0 \<le> a \<and> a < n_actions e) \<and>
         (fst (FrozenLake_step draw fl a) = Inl InvalidAction) = (a < 0 \<or> n_actions fl \<le> a) \<and>
         (\<exists>ns rw d. fst (FrozenLake_step draw fl a) = Inr (ns, rw, d)) =
           (0 \<le> a \<and> a < n_actions fl) \<and>
         (fst (GridWorld_step draw gw a) = Inl InvalidAction) = (a < 0 \<or> n_actions gw \<le> a) \<and>
         (\<exists>ns rw d. fst (GridWorld_step draw gw a) = Inr (ns, rw, d)) =
           (0 \<le> a \<and> a < n_actions gw)"
  by (auto simp add: step_def FrozenLake_step_def GridWorld_step_def Let_def split: prod.splits)

theorem step_invalid_action_iff_witness:
  "fst (step next_draw (GridWorld_init grid4 30 0 ()) 4) = Inl InvalidAction \<and>
   fst (FrozenLake_step next_draw (FrozenLake_init lake4 0 30 0 ()) (- 1)) = Inl InvalidAction \<and>
   (\<exists>ns rw d. fst (GridWorld_step next_draw (GridWorld_init grid4 30 0 ()) 3) = Inr (ns, rw, d))"
  using step_invalid_action_iff [of next_draw "GridWorld_init grid4 30 0 ()" 4
      "FrozenLake_init lake4 0 30 0 ()" "GridWorld_init grid4 30 0 ()"]
    step_invalid_action_iff [of next_draw "GridWorld_init grid4 30 0 ()" "- 1"
      "FrozenLake_init lake4 0 30 0 ()" "GridWorld_init grid4 30 0 ()"]
    step_invalid_action_iff [of next_draw "GridWorld_init grid4 30 0 ()" 3
      "FrozenLake_init lake4 0 30 0 ()" "GridWorld_init grid4 30 0 ()"]
  by (simp add: FrozenLake_init_fields GridWorld_init_fields)

text \<open>
  C10. When \<open>step\<close> raises the invalid-action error, the object is left as it was: the
  current state, the step counter and every other field keep their values.
\<close>

theorem step_invalid_action_frame:
  fixes draw :: "('r, 'w) draw"
    and e :: "('r, 'm) Environment_scheme"
    and fl :: "('r, 'f) FrozenLake_scheme"
    and gw :: "('r, 'g) GridWorld_scheme"
  assumes "fst (step draw e a) = Inl InvalidAction"
    and "fst (FrozenLake_step draw fl a) = Inl InvalidAction"
    and "fst (GridWorld_step draw gw a) = Inl InvalidAction"
  shows "snd (step draw e a) = e \<and> snd (FrozenLake_step draw fl a) = fl \<and>
         snd (GridWorld_step draw gw a) = gw"
  using assms
  by (auto simp add: step_def FrozenLake_step_def GridWorld_step_def Let_def
      split: prod.splits if_splits)

theorem step_invalid_action_frame_witness:
  "fst (step next_draw (GridWorld_init grid4 30 7 ()) 4) = Inl InvalidAction \<and>
   fst (FrozenLake_step next_draw (FrozenLake_init lake4 0 30 7 ()) 4) = Inl InvalidAction \<and>
   fst (GridWorld_step next_draw (GridWorld_init grid4 30 7 ()) 4) = Inl InvalidAction \<and>
   state (snd (FrozenLake_step next_draw (FrozenLake_init lake4 0 30 7 ()) 4)) = 7 \<and>
   n_steps (snd (GridWorld_step next_draw (GridWorld_init grid4 30 7 ()) 4)) = 0"
proof -
  have a: "fst (step next_draw (GridWorld_init grid4 30 7 ()) 4) = Inl InvalidAction"
    by (simp add: step_def GridWorld_init_fields)
  have b: "fst (FrozenLake_step next_draw (FrozenLake_init lake4 0 30 7 ()) 4) = Inl InvalidAction"
    by (simp add: step_def FrozenLake_step_def FrozenLake_init_fields)
  have c: "fst (GridWorld_step next_draw (GridWorld_init grid4 30 7 ()) 4) = Inl InvalidAction"
    by (simp add: step_def GridWorld_step_def GridWorld_init_fields)
  show ?thesis
    using step_invalid_action_frame [OF a b c] a b c
    by (simp add: FrozenLake_init_fields GridWorld_init_fields)
qed

subsection \<open>The oracles outside their index ranges\<close>

lemma np_index_None_iff: "(np_index n i = None) = (i < - n \<or> n \<le> i)"
  by (auto simp add: np_index_def)

lemma np_index_Some_range: "np_index n i = Some j \<Longrightarrow> 0 \<le> j \<and> j < n"
  by (auto simp add: np_index_def split: if_splits)

lemma p_tensor_at_error_iff:
  "(p_tensor_at self s a ns = Inl IndexError) =
     (s < - n_states self \<or> n_states self \<le> s \<or> a < - n_actions self \<or> n_actions self \<le> a \<or>
      ns < - n_states self \<or> n_states self \<le> ns)"
proof -
  have "(p_tensor_at self s a ns = Inl IndexError) =
      (np_index (n_states self) s = None \<or> np_index (n_actions self) a = None \<or>
       np_index (n_states self) ns = None)"
    by (simp add: p_tensor_at_def split: option.splits)
  then show ?thesis by (simp only: np_index_None_iff disj_assoc)
qed

lemma FrozenLake_r_error:
  "p_tensor_at self s a ns = Inl e \<Longrightarrow> FrozenLake_r self ns s a = Inl e"
  by (simp add: FrozenLake_r_def)

lemma GridWorld_r_error:
  "GridWorld_p self ns s a = Inl e \<Longrightarrow> GridWorld_r self ns s a = Inl e"
  by (simp add: GridWorld_r_def)

lemma int_div_bounds:
  assumes "0 < (c::int)"
  shows "(s div c) * c \<le> s" "s < (s div c + 1) * c"
proof -
  have eq: "c * (s div c) + s mod c = s" by (rule mult_div_mod_eq)
  have m: "0 \<le> s mod c" "s mod c < c" using assms by simp_all
  have "c * (s div c) \<le> s" using eq m by linarith
  then show "(s div c) * c \<le> s" by (simp only: mult.commute)
  have "s < c * (s div c) + c" using eq m by linarith
  then show "s < (s div c + 1) * c" by (simp only: mult.commute distrib_left mult_1_right)
qed

lemma int_le_div_iff:
  assumes "0 < (c::int)"
  shows "(k \<le> s div c) = (k * c \<le> s)"
proof
  assume "k \<le> s div c"
  then have "k * c \<le> (s div c) * c" using assms by (intro mult_right_mono) simp_all
  then show "k * c \<le> s" using int_div_bounds(1)[OF assms, of s] by linarith
next
  assume a: "k * c \<le> s"
  show "k \<le> s div c"
  proof (rule ccontr)
    assume "\<not> k \<le> s div c"
    then have "s div c + 1 \<le> k" by simp
    then have "(s div c + 1) * c \<le> k * c" using assms by (intro mult_right_mono) simp_all
    then show False using int_div_bounds(2)[OF assms, of s] a by linarith
  qed
qed

lemma wf_grid_positive:
  assumes "wf_grid g"
  shows "0 < shape_rows g" "0 < shape_columns g"
  using assms
  by (cases g; simp add: wf_grid_def shape_rows_def shape_columns_def)+

lemma grid_at_cell_error_iff:
  assumes "wf_grid g"
  shows "(\<exists>e. grid_at g (s div shape_columns g) (s mod shape_columns g) = Inl e) =
           (s < - grid_size g \<or> grid_size g \<le> s)"
proof -
  note pos = wf_grid_positive[OF assms]
  have y: "np_index (shape_columns g) (s mod shape_columns g) = Some (s mod shape_columns g)"
    using pos by (simp add: np_index_in_range)
  have "(\<exists>e. grid_at g (s div shape_columns g) (s mod shape_columns g) = Inl e) =
      (np_index (shape_rows g) (s div shape_columns g) = None)"
    by (simp add: grid_at_def y split: option.splits)
  also have "\<dots> = (\<not> (- shape_rows g \<le> s div shape_columns g) \<or>
      shape_rows g \<le> s div shape_columns g)"
    by (auto simp add: np_index_None_iff)
  also have "\<dots> = (s < - grid_size g \<or> grid_size g \<le> s)"
    using pos(2) by (simp add: int_le_div_iff grid_size_def not_le)
  finally show ?thesis .
qed

lemma grid_at_error: "grid_at g x y = Inl e \<Longrightarrow> e = IndexError"
  by (auto simp add: grid_at_def split: option.splits)

lemma actions_at_error_iff: "(actions_at a = Inl IndexError) = (a < - 4 \<or> 4 \<le> a)"
  by (auto simp add: actions_at_def actions_def np_index_None_iff[symmetric]
      split: option.splits)

lemma actions_at_cases:
  obtains "a < - 4 \<or> 4 \<le> a" "actions_at a = Inl IndexError"
  | d where "- 4 \<le> a" "a < 4" "actions_at a = Inr d"
proof (cases "a < - 4 \<or> 4 \<le> a")
  case True
  then show ?thesis using that(1) by (simp add: actions_at_error_iff)
next
  case False
  then have "np_index (int (length actions)) a \<noteq> None"
    by (simp add: np_index_None_iff actions_def)
  then have "\<exists>d. actions_at a = Inr d"
    by (cases "np_index (int (length actions)) a") (simp_all add: actions_at_def)
  then obtain d where "actions_at a = Inr d" ..
  then show ?thesis using that(2) False by simp
qed

lemma GridWorld_p_error_iff:
  assumes "wf_grid gr"
  shows "(GridWorld_p (GridWorld_init gr ms s0 rs) ns s a = Inl IndexError) =
           (a < - 4 \<or> 4 \<le> a \<or> s < - grid_size gr \<or> grid_size gr < s)"
proof (cases a rule: actions_at_cases)
  case 1
  have "GridWorld_p (GridWorld_init gr ms s0 rs) ns s a = Inl IndexError"
    using 1(2) by (simp add: GridWorld_p_def index_to_position_def)
  then show ?thesis using 1(1) by blast
next
  case (2 d)
  let ?x = "s div shape_columns gr"
  let ?y = "s mod shape_columns gr"
  let ?nx = "?x + fst d"
  let ?ny = "?y + snd d"
  let ?inb = "0 \<le> ?nx \<and> ?nx < shape_rows gr \<and> 0 \<le> ?ny \<and> ?ny < shape_columns gr"
  note defs = GridWorld_p_def GridWorld_init_fields index_to_position_def Let_def 2(3)
  have a: "\<not> (a < - 4 \<or> 4 \<le> a)" using 2 by simp
  show ?thesis
  proof (cases "s = grid_size gr")
    case True
    then show ?thesis
      using a grid_size_nonneg[of gr] by (simp add: defs)
  next
    case False
    show ?thesis
    proof (cases "grid_at gr ?x ?y")
      case (Inl e)
      then have "s < - grid_size gr \<or> grid_size gr \<le> s"
        using grid_at_cell_error_iff[OF assms, of s] by blast
      then have rng: "s < - grid_size gr \<or> grid_size gr < s"
        using False by linarith
      have "e = IndexError" using Inl by (rule grid_at_error)
      then have "GridWorld_p (GridWorld_init gr ms s0 rs) ns s a = Inl IndexError"
        using False Inl by (simp add: defs)
      then show ?thesis using rng by blast
    next
      case (Inr c)
      then have rng: "\<not> (s < - grid_size gr \<or> grid_size gr \<le> s)"
        using grid_at_cell_error_iff[OF assms, of s] by auto
      have nb: "grid_at gr ?nx ?ny = Inr (gr ! nat ?nx ! nat ?ny)" if "?inb"
        using that by (intro grid_at_in_range) simp_all
      have "GridWorld_p (GridWorld_init gr ms s0 rs) ns s a \<noteq> Inl IndexError"
      proof (cases "?inb")
        case True
        then show ?thesis using False Inr nb by (simp add: defs)
      next
        case False': False
        have inb: "?inb = False" using False' by simp
        show ?thesis using False Inr by (simp add: defs inb)
      qed
      then show ?thesis using a rng by simp
    qed
  qed
qed

lemma GridWorld_p_outside:
  assumes "0 \<le> s" "s \<le> grid_size gr" "0 \<le> a" "a < 4" "ns < 0 \<or> grid_size gr < ns"
  shows "GridWorld_p (GridWorld_init gr ms s0 rs) ns s a = Inr 0"
proof -
  obtain T where "0 \<le> T" "T \<le> grid_size gr"
    and "\<And>ns. GridWorld_p (GridWorld_init gr ms s0 rs) ns s a = Inr (if T = ns then 1 else 0)"
    using GridWorld_p_target[OF assms(1-4), of ms s0 rs] by blast
  then show ?thesis using assms(5) by auto
qed

lemma GridWorld_r_outside:
  assumes "0 \<le> s" "s \<le> grid_size gr" "0 \<le> a" "a < 4" "ns < 0 \<or> grid_size gr < ns"
  shows "GridWorld_r (GridWorld_init gr ms s0 rs) ns s a = Inr 0"
  by (simp add: GridWorld_r_def GridWorld_p_outside[OF assms])

lemma FrozenLake_p_wraps:
  "FrozenLake_p (FrozenLake_init lake4 0 30 0 ()) (- 1) 16 0 = Inr 1"
proof -
  have "p_tensor (FrozenLake_init lake4 0 30 0 ()) (grid_size lake4) 0 16 = 1"
    using terminal_cell_absorbing[of lake4 0 30 0 "()"]
    by (subst p_tensor_terminal) (simp_all add: shape_lake4)
  then show ?thesis
    by (simp add: FrozenLake_p_def p_tensor_at_def np_index_def FrozenLake_init_fields
        shape_lake4)
qed

text \<open>
  C9, as stated, fails: the reward grid never checks the next-state index, and numpy and
  tuple indexing accept negative indices. A query of the reward grid with a next state
  beyond the last state returns probability 0, and a query of the slippery grid with
  next state \<open>-1\<close> returns the entry of the absorbing state.
\<close>

theorem oracle_bounds_counterexample:
  "GridWorld_p (GridWorld_init grid4 30 0 ()) 17 0 0 = Inr 0 \<and>
   GridWorld_r (GridWorld_init grid4 30 0 ()) 17 0 0 = Inr 0 \<and>
   n_states (GridWorld_init grid4 30 0 ()) = 17 \<and>
   FrozenLake_p (FrozenLake_init lake4 0 30 0 ()) (- 1) 16 0 = Inr 1"
  using GridWorld_p_outside [of 0 grid4 0 17 30 0 "()"]
    GridWorld_r_outside [of 0 grid4 0 17 30 0 "()"] FrozenLake_p_wraps
  by (simp add: shape_grid4 GridWorld_init_fields)

text \<open>
  C9, amended. A query of the slippery grid's \<open>p\<close> fails with a bounds error exactly
  when the state or the next state lies outside \<open>[-n_states, n_states)\<close> or the action
  outside \<open>[-n_actions, n_actions)\<close>, and its \<open>r\<close> fails whenever \<open>p\<close> does. A query
  of the reward grid's \<open>p\<close> fails with a bounds error exactly when the action lies
  outside \<open>[-n_actions, n_actions)\<close> or the state outside
  \<open>[-(n_states - 1), n_states - 1]\<close>, and its \<open>r\<close> fails whenever \<open>p\<close> does. The
  reward grid does not check the next state: for a state and an action in their ranges
  and a next state outside \<open>[0, n_states)\<close>, \<open>p\<close> and \<open>r\<close> return 0.
\<close>

theorem oracle_bounds_errors:
  assumes "wf_grid lk" and "wf_grid gr"
    and "fl = FrozenLake_init lk sl ms s0 rs" and "gw = GridWorld_init gr ms2 s02 rs2"
  shows "((FrozenLake_p fl ns s a = Inl IndexError) =
            (s < - n_states fl \<or> n_states fl \<le> s \<or> a < - n_actions fl \<or> n_actions fl \<le> a \<or>
             ns < - n_states fl \<or> n_states fl \<le> ns)) \<and>
         (FrozenLake_p fl ns s a = Inl IndexError \<longrightarrow> FrozenLake_r fl ns s a = Inl IndexError) \<and>
         ((GridWorld_p gw ns s a = Inl IndexError) =
            (a < - n_actions gw \<or> n_actions gw \<le> a \<or> s < - (n_states gw - 1) \<or>
             n_states gw \<le> s)) \<and>
         (GridWorld_p gw ns s a = Inl IndexError \<longrightarrow> GridWorld_r gw ns s a = Inl IndexError) \<and>
         (0 \<le> s \<and> s < n_states gw \<and> 0 \<le> a \<and> a < n_actions gw \<and>
          (ns < 0 \<or> n_states gw \<le> ns) \<longrightarrow>
            GridWorld_p gw ns s a = Inr 0 \<and> GridWorld_r gw ns s a = Inr 0)"
proof -
  have 1: "(FrozenLake_p fl ns s a = Inl IndexError) =
            (s < - n_states fl \<or> n_states fl \<le> s \<or> a < - n_actions fl \<or> n_actions fl \<le> a \<or>
             ns < - n_states fl \<or> n_states fl \<le> ns)"
    unfolding FrozenLake_p_def by (rule p_tensor_at_error_iff)
  have 2: "FrozenLake_p fl ns s a = Inl IndexError \<longrightarrow> FrozenLake_r fl ns s a = Inl IndexError"
    unfolding FrozenLake_p_def by (simp add: FrozenLake_r_error)
  have 3: "(GridWorld_p gw ns s a = Inl IndexError) =
            (a < - n_actions gw \<or> n_actions gw \<le> a \<or> s < - (n_states gw - 1) \<or>
             n_states gw \<le> s)"
    unfolding assms(4) using GridWorld_p_error_iff[OF assms(2), of ms2 s02 rs2 ns s a]
    by (simp add: GridWorld_init_fields) linarith
  have 4: "GridWorld_p gw ns s a = Inl IndexError \<longrightarrow> GridWorld_r gw ns s a = Inl IndexError"
    by (simp add: GridWorld_r_error)
  have 5: "0 \<le> s \<and> s < n_states gw \<and> 0 \<le> a \<and> a < n_actions gw \<and>
          (ns < 0 \<or> n_states gw \<le> ns) \<longrightarrow>
            GridWorld_p gw ns s a = Inr 0 \<and> GridWorld_r gw ns s a = Inr 0"
  proof
    assume h: "0 \<le> s \<and> s < n_states gw \<and> 0 \<le> a \<and> a < n_actions gw \<and>
          (ns < 0 \<or> n_states gw \<le> ns)"
    then have r: "0 \<le> s" "s \<le> grid_size gr" "0 \<le> a" "a < 4" "ns < 0 \<or> grid_size gr < ns"
      unfolding assms(4) by (auto simp add: GridWorld_init_fields)
    show "GridWorld_p gw ns s a = Inr 0 \<and> GridWorld_r gw ns s a = Inr 0"
      unfolding assms(4) by (simp add: GridWorld_p_outside[OF r] GridWorld_r_outside[OF r])
  qed
  show ?thesis using 1 2 3 4 5 by blast
qed

theorem oracle_bounds_errors_witness:
  "wf_grid lake4 \<and> wf_grid grid4 \<and>
   FrozenLake_p (FrozenLake_init lake4 0 30 0 ()) 0 17 0 = Inl IndexError \<and>
   FrozenLake_r (FrozenLake_init lake4 0 30 0 ()) 0 17 0 = Inl IndexError \<and>
   GridWorld_p (GridWorld_init grid4 30 0 ()) 0 17 0 = Inl IndexError \<and>
   GridWorld_r (GridWorld_init grid4 30 0 ()) 0 17 0 = Inl IndexError \<and>
   GridWorld_p (GridWorld_init grid4 30 0 ()) 40 3 1 = Inr 0 \<and>
   GridWorld_r (GridWorld_init grid4 30 0 ()) 40 3 1 = Inr 0"
  using oracle_bounds_errors [OF wf_lake4 wf_grid4 refl refl, of 0 30 0 "()" 0 17 0 30 0 "()"]
    oracle_bounds_errors [OF wf_lake4 wf_grid4 refl refl, of 0 30 0 "()" 40 3 1 30 0 "()"]
  by (simp add: wf_lake4 wf_grid4 FrozenLake_init_fields GridWorld_init_fields shape_lake4
      shape_grid4)

section \<open>Properties of the solvers\<close>

subsection \<open>Evaluation and improvement\<close>

declare policy_evaluation_loop.simps [simp del]
declare policy_iteration_loop.simps [simp del]

lemma identity_row_valid:
  "valid_action env k \<Longrightarrow>
   identity_row (env_n_actions env) k =
     Inr (map (\<lambda>a. if int a = k then 1 else 0) [0 ..< env_n_actions env])"
  by (simp add: identity_row_def valid_action_def np_index_in_range)

lemma sum_list_upt_delta:
  assumes "k < n"
  shows "(\<Sum>a\<leftarrow>[0 ..< n]. (if a = k then 1 else 0) * f a) = (f k :: real)"
proof -
  have "(\<Sum>a\<leftarrow>[0 ..< n]. (if a = k then 1 else 0) * f a) =
      (\<Sum>a\<in>{0 ..< n}. (if a = k then 1 else 0) * f a)"
    by (simp add: sum_list_distinct_conv_sum_set)
  also have "\<dots> = (\<Sum>a\<in>{0 ..< n}. if a = k then f a else 0)"
    by (intro sum.cong) simp_all
  also have "\<dots> = f k" using assms by simp
  finally show ?thesis .
qed

lemma policy_backup_valid:
  assumes "valid_action env (policy ! s)"
  shows "policy_backup env policy gamma val s =
           Inr (\<Sum>s'\<leftarrow>[0 ..< env_n_states env].
                  env_p env s s' (nat (policy ! s)) *
                    (env_r env s s' (nat (policy ! s)) + gamma * val ! s'))"
proof -
  let ?k = "nat (policy ! s)"
  from assms have k: "?k < env_n_actions env" "int ?k = policy ! s"
    by (simp_all add: valid_action_def nat_less_iff)
  have inner: "(\<Sum>a\<leftarrow>[0 ..< env_n_actions env].
        map (\<lambda>a. if int a = policy ! s then 1 else 0) [0 ..< env_n_actions env] ! a *
          env_p env s s' a * (env_r env s s' a + gamma * val ! s')) =
      env_p env s s' ?k * (env_r env s s' ?k + gamma * val ! s')" for s'
  proof -
    have "(\<Sum>a\<leftarrow>[0 ..< env_n_actions env].
        map (\<lambda>a. if int a = policy ! s then 1 else 0) [0 ..< env_n_actions env] ! a *
          env_p env s s' a * (env_r env s s' a + gamma * val ! s')) =
      (\<Sum>a\<leftarrow>[0 ..< env_n_actions env]. (if a = ?k then 1 else 0) *
          (env_p env s s' a * (env_r env s s' a + gamma * val ! s')))"
      using k by (intro arg_cong[where f = sum_list] map_cong) auto
    then show ?thesis using k(1) by (simp only: sum_list_upt_delta)
  qed
  show ?thesis
    by (simp add: policy_backup_def identity_row_valid[OF assms] inner)
qed

lemma foldM_cong:
  "(\<And>acc x. x \<in> set xs \<Longrightarrow> f acc x = g acc x) \<Longrightarrow> foldM f acc xs = foldM g acc xs"
  by (induction xs arbitrary: acc) (simp_all split: sum.splits)

lemma foldM_total:
  "(\<And>acc x. x \<in> set xs \<Longrightarrow> \<exists>acc'. f acc x = Inr acc') \<Longrightarrow> \<exists>r. foldM f acc xs = Inr r"
proof (induction xs arbitrary: acc)
  case Nil
  then show ?case by simp
next
  case (Cons x xs)
  obtain acc' where "f acc x = Inr acc'" using Cons.prems[of x acc] by auto
  moreover have "\<exists>r. foldM f acc' xs = Inr r"
    by (rule Cons.IH) (simp add: Cons.prems)
  ultimately show ?case by simp
qed

lemma absorbing_uniformD:
  assumes "absorbing_uniform env" "a < env_n_actions env" "s' < env_n_states env"
  shows "env_p env (last_state env) s' a = env_p env (last_state env) s' 0"
    and "env_r env (last_state env) s' a = env_r env (last_state env) s' 0"
proof -
  from assms(1) have "\<forall>a\<in>set [0 ..< env_n_actions env]. \<forall>s'\<in>set [0 ..< env_n_states env].
      env_p env (last_state env) s' a = env_p env (last_state env) s' 0 \<and>
      env_r env (last_state env) s' a = env_r env (last_state env) s' 0"
    unfolding absorbing_uniform_def list_all_iff .
  moreover have "a \<in> set [0 ..< env_n_actions env]" "s' \<in> set [0 ..< env_n_states env]"
    using assms(2,3) by simp_all
  ultimately show "env_p env (last_state env) s' a = env_p env (last_state env) s' 0"
    and "env_r env (last_state env) s' a = env_r env (last_state env) s' 0"
    by blast+
qed

lemma policy_backup_absorbing:
  assumes "absorbing_uniform env" "valid_action env (policy ! last_state env)"
  shows "policy_backup env policy gamma val (last_state env) =
           Inr (\<Sum>s'\<leftarrow>[0 ..< env_n_states env].
                  env_p env (last_state env) s' 0 *
                    (env_r env (last_state env) s' 0 + gamma * val ! s'))"
proof -
  have k: "nat (policy ! last_state env) < env_n_actions env"
    using assms(2) by (simp add: valid_action_def nat_less_iff)
  have "map (\<lambda>s'. env_p env (last_state env) s' (nat (policy ! last_state env)) *
          (env_r env (last_state env) s' (nat (policy ! last_state env)) + gamma * val ! s'))
        [0 ..< env_n_states env] =
      map (\<lambda>s'. env_p env (last_state env) s' 0 *
          (env_r env (last_state env) s' 0 + gamma * val ! s')) [0 ..< env_n_states env]"
    by (rule map_cong) (simp_all add: absorbing_uniformD[OF assms(1) k])
  then show ?thesis
    by (simp only: policy_backup_valid[OF assms(2)])
qed

lemma policy_backup_agree:
  assumes "absorbing_uniform env"
    and "take (last_state env) policy1 = take (last_state env) policy2"
    and "valid_action env (policy1 ! last_state env)"
    and "valid_action env (policy2 ! last_state env)"
    and "s < env_n_states env"
  shows "policy_backup env policy1 gamma val s = policy_backup env policy2 gamma val s"
proof (cases "s < last_state env")
  case True
  then have "policy1 ! s = policy2 ! s"
    using assms(2) by (metis nth_take)
  then show ?thesis by (simp add: policy_backup_def)
next
  case False
  then have "s = last_state env" using assms(5) by (simp add: last_state_def)
  then show ?thesis
    by (simp only: policy_backup_absorbing[OF assms(1,3)] policy_backup_absorbing[OF assms(1,4)])
qed

lemma evaluation_sweep_agree:
  assumes "absorbing_uniform env"
    and "take (last_state env) policy1 = take (last_state env) policy2"
    and "valid_action env (policy1 ! last_state env)"
    and "valid_action env (policy2 ! last_state env)"
  shows "foldM (evaluation_step env policy1 gamma) acc [0 ..< env_n_states env] =
         foldM (evaluation_step env policy2 gamma) acc [0 ..< env_n_states env]"
proof (rule foldM_cong)
  fix acc :: "real list \<times> real" and x
  assume "x \<in> set [0 ..< env_n_states env]"
  then have "x < env_n_states env" by simp
  then show "evaluation_step env policy1 gamma acc x = evaluation_step env policy2 gamma acc x"
    by (simp add: evaluation_step_def policy_backup_agree[OF assms])
qed

lemma policy_evaluation_loop_agree:
  assumes "absorbing_uniform env"
    and "take (last_state env) policy1 = take (last_state env) policy2"
    and "valid_action env (policy1 ! last_state env)"
    and "valid_action env (policy2 ! last_state env)"
  shows "policy_evaluation_loop env policy1 gamma theta max_iterations curr_iteration stop val =
         policy_evaluation_loop env policy2 gamma theta max_iterations curr_iteration stop val"
  using assms
proof (induction env policy1 gamma theta max_iterations curr_iteration stop val
    rule: policy_evaluation_loop.induct)
  case (1 env policy gamma theta max_iterations curr_iteration stop val)
  note sweep = evaluation_sweep_agree[OF "1.prems", of gamma "(val, 0)"]
  note unfold = policy_evaluation_loop.simps[of env _ gamma theta max_iterations
      curr_iteration stop val]
  show ?case
  proof (cases "curr_iteration < max_iterations \<and> \<not> stop")
    case False
    show ?thesis
      unfolding unfold[of policy] unfold[of policy2] by (simp only: False if_False)
  next
    case True
    show ?thesis
    proof (cases "foldM (evaluation_step env policy gamma) (val, 0) [0 ..< env_n_states env]")
      case (Inl e)
      show ?thesis
        unfolding unfold[of policy] unfold[of policy2]
        by (simp only: True if_True sweep[symmetric] Inl sum.case)
    next
      case (Inr r)
      obtain val' delta where r: "r = (val', delta)" by (cases r)
      have "policy_evaluation_loop env policy gamma theta max_iterations
              (curr_iteration + 1) (delta < theta) val' =
            policy_evaluation_loop env policy2 gamma theta max_iterations
              (curr_iteration + 1) (delta < theta) val'"
        using True Inr r "1.prems" by (intro "1.IH") simp_all
      then show ?thesis
        unfolding unfold[of policy] unfold[of policy2]
        by (simp only: True if_True sweep[symmetric] Inr r sum.case prod.case)
    qed
  qed
qed

lemma evaluation_step_total:
  assumes "valid_action env (policy ! s)"
  shows "\<exists>acc'. evaluation_step env policy gamma acc s = Inr acc'"
  by (simp add: evaluation_step_def policy_backup_valid[OF assms] Let_def)

lemma evaluation_sweep_total:
  assumes "\<forall>s<env_n_states env. valid_action env (policy ! s)"
  shows "\<exists>r. foldM (evaluation_step env policy gamma) acc [0 ..< env_n_states env] = Inr r"
proof (rule foldM_total)
  fix acc :: "real list \<times> real" and x
  assume "x \<in> set [0 ..< env_n_states env]"
  then have "valid_action env (policy ! x)" using assms by simp
  then show "\<exists>acc'. evaluation_step env policy gamma acc x = Inr acc'"
    by (rule evaluation_step_total)
qed

lemma policy_evaluation_loop_total:
  assumes "\<forall>s<env_n_states env. valid_action env (policy ! s)"
  shows "\<exists>v. policy_evaluation_loop env policy gamma theta max_iterations curr_iteration stop val
           = Inr v"
  using assms
proof (induction env policy gamma theta max_iterations curr_iteration stop val
    rule: policy_evaluation_loop.induct)
  case (1 env policy gamma theta max_iterations curr_iteration stop val)
  note unfold = policy_evaluation_loop.simps[of env policy gamma theta max_iterations
      curr_iteration stop val]
  show ?case
  proof (cases "curr_iteration < max_iterations \<and> \<not> stop")
    case False
    show ?thesis unfolding unfold by (simp only: False if_False) blast
  next
    case True
    obtain r where sweep:
      "foldM (evaluation_step env policy gamma) (val, 0) [0 ..< env_n_states env] = Inr r"
      using evaluation_sweep_total[OF "1.prems"] by blast
    obtain val' delta where r: "r = (val', delta)" by (cases r)
    have "\<exists>v. policy_evaluation_loop env policy gamma theta max_iterations
              (curr_iteration + 1) (delta < theta) val' = Inr v"
      using True sweep r "1.prems" by (intro "1.IH") simp_all
    then show ?thesis
      unfolding unfold by (simp only: True simp_thms if_True sweep r sum.case prod.case)
  qed
qed

lemma policy_evaluation_total:
  assumes "\<forall>s<env_n_states env. valid_action env (policy ! s)"
  shows "\<exists>v. policy_evaluation env policy gamma theta max_iterations = Inr v"
  unfolding policy_evaluation_def using assms by (rule policy_evaluation_loop_total)

lemma argmax_less: "xs \<noteq> [] \<Longrightarrow> argmax xs < length xs"
  by (induction xs rule: argmax.induct) (simp_all add: Let_def)

lemma length_action_values: "length (action_values env gamma val s) = env_n_actions env"
  by (simp add: action_values_def)

lemma improved_policy_valid:
  assumes "0 < env_n_actions env" "s < env_n_states env"
  shows "valid_action env (fst (policy_improvement env policy val gamma) ! s)"
proof -
  have "action_values env gamma val s \<noteq> []"
    using assms(1) length_action_values[of env gamma val s] by auto
  then have "argmax (action_values env gamma val s) < env_n_actions env"
    using argmax_less[of "action_values env gamma val s"] by (simp add: length_action_values)
  then show ?thesis
    using assms(2) by (simp add: policy_improvement_def valid_action_def Let_def)
qed

lemma policy_iteration_loop_total:
  assumes "0 < env_n_actions env" "\<forall>s<env_n_states env. valid_action env (policy ! s)"
  shows "\<exists>r. policy_iteration_loop env gamma theta max_iterations current_iteration stop
           policy val = Inr r"
  using assms
proof (induction env gamma theta max_iterations current_iteration stop policy val
    rule: policy_iteration_loop.induct)
  case (1 env gamma theta max_iterations current_iteration stop policy val)
  note unfold = policy_iteration_loop.simps[of env gamma theta max_iterations
      current_iteration stop policy val]
  show ?case
  proof (cases "current_iteration < max_iterations \<and> \<not> stop")
    case False
    show ?thesis unfolding unfold by (simp only: False if_False) blast
  next
    case True
    obtain val' where ev: "policy_evaluation env policy gamma theta max_iterations = Inr val'"
      using policy_evaluation_total[OF "1.prems"(2)] by blast
    obtain policy' stop' where imp: "policy_improvement env policy val' gamma = (policy', stop')"
      by (cases "policy_improvement env policy val' gamma")
    have valid: "\<forall>s<env_n_states env. valid_action env (policy' ! s)"
      using improved_policy_valid[OF "1.prems"(1), of _ policy val' gamma] imp by simp
    have "\<exists>r. policy_iteration_loop env gamma theta max_iterations (current_iteration + 1)
              stop' policy' val' = Inr r"
      using True ev imp[symmetric] "1.prems"(1) valid by (intro "1.IH") simp_all
    then show ?thesis
      unfolding unfold by (simp only: True simp_thms if_True ev imp sum.case prod.case Let_def)
  qed
qed

lemma zero_policy_valid:
  assumes "0 < env_n_actions env"
  shows "\<forall>s<env_n_states env. valid_action env (replicate (env_n_states env) 0 ! s)"
  using assms by (simp add: valid_action_def)

lemma policy_iteration_saves:
  assumes "0 < env_n_actions env"
  shows "\<exists>policy val. policy_iteration env gamma theta max_iterations fs =
           (Inr (policy, val), fs(npy_filename env \<mapsto> val))"
proof -
  obtain r where "policy_iteration_loop env gamma theta max_iterations 0 False
      (replicate (env_n_states env) 0) (replicate (env_n_states env) 0) = Inr r"
    using policy_iteration_loop_total[OF assms zero_policy_valid[OF assms]] by blast
  then show ?thesis
    by (cases r) (simp add: policy_iteration_def save_file_def)
qed

subsection \<open>The tables of the concrete environments\<close>

lemma FrozenLake_table_fields:
  "env_n_states (FrozenLake_prob_rewards (FrozenLake_init lk sl ms s0 rs)) = nat (grid_size lk + 1)"
  "env_n_actions (FrozenLake_prob_rewards (FrozenLake_init lk sl ms s0 rs)) = 4"
  "last_state (FrozenLake_prob_rewards (FrozenLake_init lk sl ms s0 rs)) = nat (grid_size lk)"
  using grid_size_nonneg[of lk]
  by (simp_all add: FrozenLake_prob_rewards_def last_state_def FrozenLake_init_fields nat_add_distrib)

lemma GridWorld_table_fields:
  "env_n_states (GridWorld_prob_rewards (GridWorld_init gr ms s0 rs)) = nat (grid_size gr + 1)"
  "env_n_actions (GridWorld_prob_rewards (GridWorld_init gr ms s0 rs)) = 4"
  "last_state (GridWorld_prob_rewards (GridWorld_init gr ms s0 rs)) = nat (grid_size gr)"
  using grid_size_nonneg[of gr]
  by (simp_all add: GridWorld_prob_rewards_def last_state_def GridWorld_init_fields nat_add_distrib)

lemma FrozenLake_table_absorbing:
  assumes "a < 4" "s' < nat (grid_size lk + 1)"
  shows "env_p (FrozenLake_prob_rewards (FrozenLake_init lk sl ms s0 rs)) (nat (grid_size lk)) s' a =
           (if int s' = grid_size lk then 1 else 0)"
    and "env_r (FrozenLake_prob_rewards (FrozenLake_init lk sl ms s0 rs)) (nat (grid_size lk)) s' a = 0"
proof -
  have r: "0 \<le> int a" "int a < 4" "0 \<le> int s'" "int s' \<le> grid_size lk"
    using assms by simp_all
  have g: "int (nat (grid_size lk)) = grid_size lk"
    using grid_size_nonneg[of lk] by simp
  show "env_p (FrozenLake_prob_rewards (FrozenLake_init lk sl ms s0 rs)) (nat (grid_size lk)) s' a =
           (if int s' = grid_size lk then 1 else 0)"
    by (simp only: FrozenLake_prob_rewards_def tabular_env.select_convs g
        FrozenLake_p_absorbing[OF r] sum.case)
  show "env_r (FrozenLake_prob_rewards (FrozenLake_init lk sl ms s0 rs)) (nat (grid_size lk)) s' a = 0"
    by (simp only: FrozenLake_prob_rewards_def tabular_env.select_convs g
        FrozenLake_r_absorbing[OF r] sum.case of_int_0)
qed

lemma FrozenLake_absorbing_uniform:
  "absorbing_uniform (FrozenLake_prob_rewards (FrozenLake_init lk sl ms s0 rs))"
  unfolding absorbing_uniform_def list_all_iff FrozenLake_table_fields
  by (simp add: FrozenLake_table_absorbing)

lemma GridWorld_table_absorbing:
  assumes "a < 4"
  shows "env_p (GridWorld_prob_rewards (GridWorld_init gr ms s0 rs)) (nat (grid_size gr)) s' a =
           (if int s' = grid_size gr then 1 else 0)"
    and "env_r (GridWorld_prob_rewards (GridWorld_init gr ms s0 rs)) (nat (grid_size gr)) s' a = 0"
proof -
  have r: "0 \<le> int a" "int a < 4" using assms by simp_all
  have g: "int (nat (grid_size gr)) = grid_size gr"
    using grid_size_nonneg[of gr] by simp
  show "env_p (GridWorld_prob_rewards (GridWorld_init gr ms s0 rs)) (nat (grid_size gr)) s' a =
           (if int s' = grid_size gr then 1 else 0)"
    by (simp only: GridWorld_prob_rewards_def tabular_env.select_convs g
        GridWorld_p_absorbing[OF r] sum.case) simp
  show "env_r (GridWorld_prob_rewards (GridWorld_init gr ms s0 rs)) (nat (grid_size gr)) s' a = 0"
    by (simp only: GridWorld_prob_rewards_def tabular_env.select_convs g
        GridWorld_r_absorbing[OF r] sum.case of_int_0)
qed

lemma GridWorld_absorbing_uniform:
  "absorbing_uniform (GridWorld_prob_rewards (GridWorld_init gr ms s0 rs))"
  unfolding absorbing_uniform_def list_all_iff GridWorld_table_fields
  by (simp add: GridWorld_table_absorbing)

lemma shape_lake1: "shape_rows lake1 = 1" "shape_columns lake1 = 1" "grid_size lake1 = 1"
  by (simp_all add: grid_size_def shape_rows_def shape_columns_def lake1_def)

lemma upt_2: "[0 ..< 2] = [0, Suc 0]"
  by (simp add: upt_rec numeral_2_eq_2)

lemma upt_4: "[0 ..< 4] = [0, 1, 2, 3]"
  by code_simp

lemma lake1_rewards:
  assumes "s < 2" "s' < 2" "a < 4"
  shows "env_r (FrozenLake_prob_rewards (FrozenLake_init lake1 0 30 0 ())) s s' a = 0"
proof -
  have cell: "grid_at lake1 0 0 = Inr ''&''"
    unfolding grid_at_def np_index_def shape_lake1 by (simp add: lake1_def)
  have "s = 0 \<or> s = 1" using assms(1) by auto
  then have "FrozenLake_r (FrozenLake_init lake1 0 30 0 ()) (int s') (int s) (int a) = Inr 0"
    using assms(2,3)
    by (auto simp add: FrozenLake_r_def p_tensor_at_def np_index_in_range FrozenLake_init_fields
        shape_lake1 index_to_position_def cell)
  then show ?thesis by (simp add: FrozenLake_prob_rewards_def)
qed

lemma lake1_action_values:
  assumes "s < 2"
  shows "action_values (FrozenLake_prob_rewards (FrozenLake_init lake1 0 30 0 ())) 1 [0, 0] s =
           [0, 0, 0, 0]"
proof -
  have n: "env_n_states (FrozenLake_prob_rewards (FrozenLake_init lake1 0 30 0 ())) = 2"
    "env_n_actions (FrozenLake_prob_rewards (FrozenLake_init lake1 0 30 0 ())) = 4"
    by (simp_all add: FrozenLake_table_fields shape_lake1)
  show ?thesis
    unfolding action_values_def n upt_2 upt_4
    using assms by (simp add: lake1_rewards)
qed

lemma lake1_improved:
  "policy_improvement (FrozenLake_prob_rewards (FrozenLake_init lake1 0 30 0 ())) policy [0, 0] 1 =
     ([0, 0], policy = [0, 0])"
proof -
  have n: "env_n_states (FrozenLake_prob_rewards (FrozenLake_init lake1 0 30 0 ())) = 2"
    by (simp add: FrozenLake_table_fields shape_lake1)
  show ?thesis
    unfolding policy_improvement_def n upt_2
    by (simp add: lake1_action_values Let_def)
qed

subsection \<open>The claims about the solvers\<close>

text \<open>
  C8. The improved policy depends on the environment, the value array and the discount
  only; the input policy enters the stability flag alone, which says whether it equals
  the improved policy. Hence improving the improved policy again, with the same value
  array, returns it unchanged with the flag true.
\<close>

theorem policy_improvement_idempotent:
  "fst (policy_improvement env policy val gamma) = fst (policy_improvement env policy' val gamma) \<and>
   snd (policy_improvement env policy val gamma) =
     (policy = fst (policy_improvement env policy val gamma)) \<and>
   policy_improvement env (fst (policy_improvement env policy val gamma)) val gamma =
     (fst (policy_improvement env policy val gamma), True)"
  by (simp add: policy_improvement_def Let_def)

text \<open>
  C6, as stated, fails: \<open>policy_iteration\<close> calls \<open>save_file\<close> before it returns.
  On the table of the lake of \<open>run_env.py\<close>, started with no files, it leaves the file
  \<open>data/small_frozenlake_policy_evaluation.npy\<close> behind.
\<close>

theorem policy_iteration_counterexample:
  "snd (policy_iteration (FrozenLake_prob_rewards (FrozenLake_init lake4 (1 / 10) 30 0 ()))
          (9 / 10) (1 / 10000) 128 Map.empty)
     ''data/small_frozenlake_policy_evaluation.npy'' \<noteq> None \<and>
   snd (policy_iteration (FrozenLake_prob_rewards (FrozenLake_init lake4 (1 / 10) 30 0 ()))
          (9 / 10) (1 / 10000) 128 Map.empty) \<noteq> Map.empty"
proof -
  let ?env = "FrozenLake_prob_rewards (FrozenLake_init lake4 (1 / 10) 30 0 ())"
  have "0 < env_n_actions ?env" by (simp add: FrozenLake_table_fields)
  then obtain policy val where
    "policy_iteration ?env (9 / 10) (1 / 10000) 128 Map.empty =
       (Inr (policy, val), Map.empty(npy_filename ?env \<mapsto> val))"
    using policy_iteration_saves by blast
  moreover have "npy_filename ?env = ''data/small_frozenlake_policy_evaluation.npy''"
    by (simp add: npy_filename_def FrozenLake_table_fields shape_lake4)
  ultimately show ?thesis by auto
qed

text \<open>
  C6, amended. On an environment with at least one action, \<open>policy_iteration\<close> returns
  the final pair of policy and value array and saves that value array: to
  \<open>data/small_frozenlake_policy_evaluation.npy\<close> when the environment has 17 states,
  and to \<open>data/big_frozenlake_policy_evaluation.npy\<close> otherwise. No other file
  changes.
\<close>

theorem policy_iteration_saves_value:
  assumes "0 < env_n_actions env"
  shows "\<exists>policy val. policy_iteration env gamma theta max_iterations fs =
           (Inr (policy, val),
            fs((if env_n_states env = 17 then ''data/small_frozenlake_policy_evaluation.npy''
                else ''data/big_frozenlake_policy_evaluation.npy'') \<mapsto> val))"
  using policy_iteration_saves[OF assms, of gamma theta max_iterations fs]
  by (simp add: npy_filename_def)

theorem policy_iteration_saves_value_witness:
  "0 < env_n_actions (GridWorld_prob_rewards (GridWorld_init grid4 30 0 ())) \<and>
   (\<exists>policy val.
      policy_iteration (GridWorld_prob_rewards (GridWorld_init grid4 30 0 ())) 1 (1 / 10000) 128
        Map.empty =
      (Inr (policy, val), [''data/small_frozenlake_policy_evaluation.npy'' \<mapsto> val]))"
  using policy_iteration_saves_value
    [of "GridWorld_prob_rewards (GridWorld_init grid4 30 0 ())" 1 "1 / 10000" 128 Map.empty]
  by (simp add: GridWorld_table_fields shape_grid4)

text \<open>
  C7, as stated, fails for the stability flag: \<open>policy_improvement\<close> compares the whole
  input policy, the entry of the absorbing state included, with the improved policy. On
  the table of the one-cell lake, the policies \<open>[0, 0]\<close> and \<open>[0, 1]\<close> agree on the only
  non-absorbing state and get different flags.
\<close>

theorem absorbing_entry_counterexample:
  "last_state (FrozenLake_prob_rewards (FrozenLake_init lake1 0 30 0 ())) = 1 \<and>
   take 1 [0, 0] = take 1 [0, 1 :: int] \<and>
   policy_improvement (FrozenLake_prob_rewards (FrozenLake_init lake1 0 30 0 ())) [0, 0]
     [0, 0] 1 = ([0, 0], True) \<and>
   policy_improvement (FrozenLake_prob_rewards (FrozenLake_init lake1 0 30 0 ())) [0, 1]
     [0, 0] 1 = ([0, 0], False)"
  by (simp add: lake1_improved FrozenLake_table_fields shape_lake1)

text \<open>
  C7, amended. Let the rows of the absorbing state not depend on the action, as in both
  concrete environments, and let two policies of one entry per state agree on every
  non-absorbing state and hold an action index in \<open>[0, n_actions)\<close> at the absorbing
  state. Then \<open>policy_evaluation\<close> returns the same result for both and
  \<open>policy_improvement\<close> the same improved policy; the stability flag of each says
  whether that whole input policy equals the improved policy.
\<close>

theorem absorbing_entry_agreement:
  assumes "absorbing_uniform env"
    and "length policy1 = env_n_states env" and "length policy2 = env_n_states env"
    and "take (last_state env) policy1 = take (last_state env) policy2"
    and "valid_action env (policy1 ! last_state env)"
    and "valid_action env (policy2 ! last_state env)"
  shows "policy_evaluation env policy1 gamma theta max_iterations =
           policy_evaluation env policy2 gamma theta max_iterations \<and>
         fst (policy_improvement env policy1 val gamma) =
           fst (policy_improvement env policy2 val gamma) \<and>
         snd (policy_improvement env policy1 val gamma) =
           (policy1 = fst (policy_improvement env policy1 val gamma)) \<and>
         snd (policy_improvement env policy2 val gamma) =
           (policy2 = fst (policy_improvement env policy1 val gamma))"
proof -
  have "policy_evaluation env policy1 gamma theta max_iterations =
           policy_evaluation env policy2 gamma theta max_iterations"
    unfolding policy_evaluation_def
    using assms(1,4,5,6) by (rule policy_evaluation_loop_agree)
  then show ?thesis
    by (simp add: policy_improvement_def Let_def)
qed

theorem absorbing_entry_agreement_witness:
  "absorbing_uniform (FrozenLake_prob_rewards (FrozenLake_init lake4 (1 / 10) 30 0 ())) \<and>
   last_state (FrozenLake_prob_rewards (FrozenLake_init lake4 (1 / 10) 30 0 ())) = 16 \<and>
   policy_evaluation (FrozenLake_prob_rewards (FrozenLake_init lake4 (1 / 10) 30 0 ()))
     (replicate 17 0) (9 / 10) (1 / 10000) 1000 =
   policy_evaluation (FrozenLake_prob_rewards (FrozenLake_init lake4 (1 / 10) 30 0 ()))
     (replicate 16 0 @ [1]) (9 / 10) (1 / 10000) 1000 \<and>
   fst (policy_improvement (FrozenLake_prob_rewards (FrozenLake_init lake4 (1 / 10) 30 0 ()))
     (replicate 17 0) (replicate 17 0) (9 / 10)) =
   fst (policy_improvement (FrozenLake_prob_rewards (FrozenLake_init lake4 (1 / 10) 30 0 ()))
     (replicate 16 0 @ [1]) (replicate 17 0) (9 / 10))"
proof -
  let ?env = "FrozenLake_prob_rewards (FrozenLake_init lake4 (1 / 10) 30 0 ())"
  have u: "absorbing_uniform ?env" by (rule FrozenLake_absorbing_uniform)
  have l: "last_state ?env = 16" by (simp add: FrozenLake_table_fields shape_lake4)
  have n: "length (replicate 17 (0::int)) = env_n_states ?env"
    "length (replicate 16 (0::int) @ [1]) = env_n_states ?env"
    by (simp_all add: FrozenLake_table_fields shape_lake4)
  have t: "take (last_state ?env) (replicate 17 (0::int)) =
      take (last_state ?env) (replicate 16 0 @ [1])"
    unfolding l by simp
  have v: "valid_action ?env (replicate 17 0 ! last_state ?env)"
    "valid_action ?env ((replicate 16 0 @ [1]) ! last_state ?env)"
    unfolding l by (simp_all add: valid_action_def FrozenLake_table_fields nth_append)
  show ?thesis
    using absorbing_entry_agreement [OF u n t v, of "9 / 10" "1 / 10000" 1000 "replicate 17 0"]
      u l
    by simp
qed

end
